theory Spec2Isabelle
  imports Main "HOL-Library.Char_ord"
begin

section \<open>Tokens (package token, final snapshot)\<close>

text \<open>
  \<^verbatim>\<open>type Type string\<close>: a token kind is a string, and the kinds are string constants.
  A Go string is a sequence of bytes, as a HOL \<open>string\<close> is a list of 8-bit characters.
\<close>

type_synonym Type = string

record Token =
  Type :: Type
  Literal :: string

abbreviation EOF :: Type where "EOF \<equiv> ''EOF''"
abbreviation ILLEGAL :: Type where "ILLEGAL \<equiv> ''ILLEGAL''"
abbreviation IDENT :: Type where "IDENT \<equiv> ''IDENT''"
abbreviation INT_T :: Type where "INT_T \<equiv> ''INT''"
abbreviation ASSIGN :: Type where "ASSIGN \<equiv> ''=''"
abbreviation ASTERISK :: Type where "ASTERISK \<equiv> ''*''"
abbreviation BANG :: Type where "BANG \<equiv> ''!''"
abbreviation EQ :: Type where "EQ \<equiv> ''==''"
abbreviation GT :: Type where "GT \<equiv> ''>''"
abbreviation LT :: Type where "LT \<equiv> ''<''"
abbreviation MINUS :: Type where "MINUS \<equiv> ''-''"
abbreviation NEQ :: Type where "NEQ \<equiv> ''!=''"
abbreviation PLUS :: Type where "PLUS \<equiv> ''+''"
abbreviation SLASH :: Type where "SLASH \<equiv> ''/''"
abbreviation COMMA :: Type where "COMMA \<equiv> '',''"
abbreviation LBRACE :: Type where "LBRACE \<equiv> ''{''"
abbreviation LPAREN :: Type where "LPAREN \<equiv> ''(''"
abbreviation RBRACE :: Type where "RBRACE \<equiv> ''}''"
abbreviation RPAREN :: Type where "RPAREN \<equiv> '')''"
abbreviation SEMICOLON :: Type where "SEMICOLON \<equiv> '';''"
abbreviation ELSE :: Type where "ELSE \<equiv> ''ELSE''"
abbreviation FALSE :: Type where "FALSE \<equiv> ''FALSE''"
abbreviation FUNCTION :: Type where "FUNCTION \<equiv> ''FUNCTION''"
abbreviation IF :: Type where "IF \<equiv> ''IF''"
abbreviation LET :: Type where "LET \<equiv> ''LET''"
abbreviation RETURN :: Type where "RETURN \<equiv> ''RETURN''"
abbreviation TRUE :: Type where "TRUE \<equiv> ''TRUE''"

definition keywords_table :: "string \<rightharpoonup> Type" where
  "keywords_table = map_of
     [(''else'', ELSE), (''false'', FALSE), (''fn'', FUNCTION), (''if'', IF),
      (''let'', LET), (''return'', RETURN), (''true'', TRUE)]"

definition LookupIdent :: "string \<Rightarrow> Type" where
  "LookupIdent ident = (case keywords_table ident of Some tok \<Rightarrow> tok | None \<Rightarrow> IDENT)"

section \<open>Scanner (package lexer)\<close>

text \<open>
  The counters \<open>position\<close> and \<open>readPosition\<close> are Go \<open>int\<close>s that only ever grow by one
  per character read; they are modelled as natural numbers (a 64-bit counter does not wrap
  within any feasible number of calls). \<open>ch\<close> is a byte.
\<close>

record Lexer =
  input :: string
  position :: nat
  readPosition :: nat
  ch :: char

definition readChar :: "Lexer \<Rightarrow> Lexer" where
  "readChar lx =
     lx\<lparr>ch := (if readPosition lx \<ge> length (input lx) then CHR 0x00
               else input lx ! readPosition lx),
        position := readPosition lx,
        readPosition := readPosition lx + 1\<rparr>"

definition lexer_New :: "string \<Rightarrow> Lexer" where
  "lexer_New inp = readChar \<lparr>input = inp, position = 0, readPosition = 0, ch = CHR 0x00\<rparr>"

definition peekChar :: "Lexer \<Rightarrow> char" where
  "peekChar lx =
     (if readPosition lx \<ge> length (input lx) then CHR 0x00 else input lx ! readPosition lx)"

text \<open>
  Go's conversion \<^verbatim>\<open>string(ch)\<close> of a byte yields the UTF-8 encoding of the code point
  with that number: one byte below 0x80, two bytes from 0x80 on.
\<close>

definition string_of_byte :: "char \<Rightarrow> string" where
  "string_of_byte c =
     (if (of_char c :: nat) < 128 then [c]
      else [char_of (192 + (of_char c :: nat) div 64), char_of (128 + (of_char c :: nat) mod 64)])"

definition newToken :: "Type \<Rightarrow> char \<Rightarrow> Token" where
  "newToken tokenType c = \<lparr>Type = tokenType, Literal = string_of_byte c\<rparr>"

definition isWhitespace :: "char \<Rightarrow> bool" where
  "isWhitespace c = (c = CHR '' '' \<or> c = CHR 0x09 \<or> c = CHR 0x0A \<or> c = CHR 0x0D)"

definition isLetter :: "char \<Rightarrow> bool" where
  "isLetter c =
     ((CHR ''a'' \<le> c \<and> c \<le> CHR ''z'') \<or> (CHR ''A'' \<le> c \<and> c \<le> CHR ''Z'') \<or> c = CHR ''_'')"

definition isDigit :: "char \<Rightarrow> bool" where
  "isDigit c = (CHR ''0'' \<le> c \<and> c \<le> CHR ''9'')"

text \<open>
  The three scanning loops stop at the sentinel 0, which \<open>readChar\<close> stores once
  \<open>readPosition\<close> is past the input; the measure counts the characters still to read.
\<close>

definition chars_left :: "(char \<Rightarrow> bool) \<Rightarrow> Lexer \<Rightarrow> nat" where
  "chars_left P lx = (if P (ch lx) then Suc (length (input lx) - readPosition lx) else 0)"

lemma chars_left_readChar:
  assumes "\<not> P (CHR 0x00)" and "P (ch lx)"
  shows "chars_left P (readChar lx) < chars_left P lx"
  using assms by (auto simp: chars_left_def readChar_def)

function skipWhitespace :: "Lexer \<Rightarrow> Lexer" where
  "skipWhitespace lx = (if isWhitespace (ch lx) then skipWhitespace (readChar lx) else lx)"
  by pat_completeness auto
termination
  by (relation "measure (chars_left isWhitespace)")
     (auto intro!: chars_left_readChar simp: isWhitespace_def)

function readIdentifier_loop :: "Lexer \<Rightarrow> Lexer" where
  "readIdentifier_loop lx = (if isLetter (ch lx) then readIdentifier_loop (readChar lx) else lx)"
  by pat_completeness auto
termination
  by (relation "measure (chars_left isLetter)")
     (auto intro!: chars_left_readChar simp: isLetter_def)

function readNumber_loop :: "Lexer \<Rightarrow> Lexer" where
  "readNumber_loop lx = (if isDigit (ch lx) then readNumber_loop (readChar lx) else lx)"
  by pat_completeness auto
termination
  by (relation "measure (chars_left isDigit)")
     (auto intro!: chars_left_readChar simp: isDigit_def)

declare skipWhitespace.simps [simp del]
declare readIdentifier_loop.simps [simp del]
declare readNumber_loop.simps [simp del]

text \<open>
  The slice \<^verbatim>\<open>l.input[lo:hi]\<close>. Go panics unless \<open>lo \<le> hi \<le> len\<close>; lemma
  \<open>slice_bounds\<close> below shows that the two slices the scanner takes are always in range,
  so the panic is not a branch of the model.
\<close>

definition slice :: "string \<Rightarrow> nat \<Rightarrow> nat \<Rightarrow> string" where
  "slice s lo hi = take (hi - lo) (drop lo s)"

definition readIdentifier :: "Lexer \<Rightarrow> string \<times> Lexer" where
  "readIdentifier lx =
     (let lx' = readIdentifier_loop lx in (slice (input lx) (position lx) (position lx'), lx'))"

definition readNumber :: "Lexer \<Rightarrow> string \<times> Lexer" where
  "readNumber lx =
     (let lx' = readNumber_loop lx in (slice (input lx) (position lx) (position lx'), lx'))"

definition two_char_token :: "Type \<Rightarrow> Lexer \<Rightarrow> Token \<times> Lexer" where
  "two_char_token tokenType lx =
     (let c = ch lx; lx' = readChar lx
      in (\<lparr>Type = tokenType, Literal = string_of_byte c @ string_of_byte (ch lx')\<rparr>, lx'))"

definition NextToken :: "Lexer \<Rightarrow> Token \<times> Lexer" where
  "NextToken lx0 =
     (let lx = skipWhitespace lx0; c = ch lx in
      if c = CHR ''='' then
        (if peekChar lx = CHR ''=''
         then (let (tok, lx') = two_char_token EQ lx in (tok, readChar lx'))
         else (newToken ASSIGN c, readChar lx))
      else if c = CHR ''+'' then (newToken PLUS c, readChar lx)
      else if c = CHR ''-'' then (newToken MINUS c, readChar lx)
      else if c = CHR ''!'' then
        (if peekChar lx = CHR ''=''
         then (let (tok, lx') = two_char_token NEQ lx in (tok, readChar lx'))
         else (newToken BANG c, readChar lx))
      else if c = CHR ''*'' then (newToken ASTERISK c, readChar lx)
      else if c = CHR ''/'' then (newToken SLASH c, readChar lx)
      else if c = CHR ''<'' then (newToken LT c, readChar lx)
      else if c = CHR ''>'' then (newToken GT c, readChar lx)
      else if c = CHR '','' then (newToken COMMA c, readChar lx)
      else if c = CHR ''{'' then (newToken LBRACE c, readChar lx)
      else if c = CHR ''('' then (newToken LPAREN c, readChar lx)
      else if c = CHR ''}'' then (newToken RBRACE c, readChar lx)
      else if c = CHR '')'' then (newToken RPAREN c, readChar lx)
      else if c = CHR '';'' then (newToken SEMICOLON c, readChar lx)
      else if c = CHR 0x00 then (\<lparr>Type = EOF, Literal = ''''\<rparr>, readChar lx)
      else if isLetter c then
        (let (lit, lx') = readIdentifier lx in (\<lparr>Type = LookupIdent lit, Literal = lit\<rparr>, lx'))
      else if isDigit c then
        (let (lit, lx') = readNumber lx in (\<lparr>Type = INT_T, Literal = lit\<rparr>, lx'))
      else (newToken ILLEGAL c, readChar lx))"

text \<open>The first \<open>n\<close> tokens a scanner produces, and the scanner after them.\<close>

fun tokens :: "nat \<Rightarrow> Lexer \<Rightarrow> Token list \<times> Lexer" where
  "tokens 0 lx = ([], lx)"
| "tokens (Suc n) lx =
     (let (tok, lx') = NextToken lx; (toks, lx'') = tokens n lx' in (tok # toks, lx''))"


subsection \<open>The scanner's invariant\<close>

definition lexer_inv :: "Lexer \<Rightarrow> bool" where
  "lexer_inv lx \<longleftrightarrow>
     readPosition lx = position lx + 1 \<and>
     ch lx = (if position lx < length (input lx) then input lx ! position lx else CHR 0x00)"

lemma readChar_inv: "lexer_inv (readChar lx)"
  by (simp add: lexer_inv_def readChar_def)

lemma readChar_input: "input (readChar lx) = input lx"
  by (simp add: readChar_def)

lemma skipWhitespace_inv: "lexer_inv lx \<Longrightarrow> lexer_inv (skipWhitespace lx)"
  by (induction lx rule: skipWhitespace.induct)
     (subst skipWhitespace.simps, simp add: readChar_inv)

lemma skipWhitespace_input: "input (skipWhitespace lx) = input lx"
  by (induction lx rule: skipWhitespace.induct)
     (subst skipWhitespace.simps, simp add: readChar_input)

lemma readIdentifier_loop_inv: "lexer_inv lx \<Longrightarrow> lexer_inv (readIdentifier_loop lx)"
  by (induction lx rule: readIdentifier_loop.induct)
     (subst readIdentifier_loop.simps, simp add: readChar_inv)

lemma readIdentifier_loop_input: "input (readIdentifier_loop lx) = input lx"
  by (induction lx rule: readIdentifier_loop.induct)
     (subst readIdentifier_loop.simps, simp add: readChar_input)

lemma readNumber_loop_inv: "lexer_inv lx \<Longrightarrow> lexer_inv (readNumber_loop lx)"
  by (induction lx rule: readNumber_loop.induct)
     (subst readNumber_loop.simps, simp add: readChar_inv)

lemma readNumber_loop_input: "input (readNumber_loop lx) = input lx"
  by (induction lx rule: readNumber_loop.induct)
     (subst readNumber_loop.simps, simp add: readChar_input)

lemma NextToken_inv: "lexer_inv lx \<Longrightarrow> lexer_inv (snd (NextToken lx))"
  by (simp add: NextToken_def Let_def two_char_token_def readIdentifier_def readNumber_def
      readChar_inv skipWhitespace_inv readIdentifier_loop_inv readNumber_loop_inv)

lemma NextToken_input: "input (snd (NextToken lx)) = input lx"
  by (simp add: NextToken_def Let_def two_char_token_def readIdentifier_def readNumber_def
      readChar_input skipWhitespace_input readIdentifier_loop_input readNumber_loop_input)

lemma tokens_inv: "lexer_inv lx \<Longrightarrow> lexer_inv (snd (tokens n lx))"
  by (induction n arbitrary: lx) (simp_all add: case_prod_beta Let_def NextToken_inv)

lemma tokens_input: "input (snd (tokens n lx)) = input lx"
  by (induction n arbitrary: lx) (simp_all add: case_prod_beta Let_def NextToken_input)

lemma lexer_New_inv: "lexer_inv (lexer_New inp)"
  by (simp add: lexer_New_def readChar_inv)

lemma lexer_New_input: "input (lexer_New inp) = inp"
  by (simp add: lexer_New_def readChar_def)

lemma skipWhitespace_at_end: "ch lx = CHR 0x00 \<Longrightarrow> skipWhitespace lx = lx"
  by (subst skipWhitespace.simps) (simp add: isWhitespace_def)

lemma NextToken_at_end:
  assumes "lexer_inv lx" and "length (input lx) \<le> position lx"
  shows "NextToken lx = (\<lparr>Type = EOF, Literal = ''''\<rparr>,
           lx\<lparr>position := position lx + 1, readPosition := readPosition lx + 1\<rparr>)"
  using assms
  by (simp add: NextToken_def Let_def skipWhitespace_at_end lexer_inv_def readChar_def)

subsection \<open>The cursor moves forward\<close>

lemma readChar_position: "lexer_inv lx \<Longrightarrow> position (readChar lx) = position lx + 1"
  by (simp add: lexer_inv_def readChar_def)

lemma inv_letter_inside: "lexer_inv lx \<Longrightarrow> ch lx \<noteq> CHR 0x00 \<Longrightarrow> position lx < length (input lx)"
  by (auto simp: lexer_inv_def split: if_splits)


lemma readIdentifier_loop_position:
  "lexer_inv lx \<Longrightarrow> position lx \<le> length (input lx) \<Longrightarrow>
   position lx \<le> position (readIdentifier_loop lx) \<and>
   position (readIdentifier_loop lx) \<le> length (input lx)"
proof (induction lx rule: readIdentifier_loop.induct)
  case (1 lx)
  show ?case
  proof (cases "isLetter (ch lx)")
    case True
    then have "ch lx \<noteq> CHR 0x00" by (auto simp: isLetter_def)
    then have inside: "position lx < length (input lx)"
      using inv_letter_inside "1.prems"(1) by blast
    have "position (readChar lx) \<le> position (readIdentifier_loop (readChar lx)) \<and>
          position (readIdentifier_loop (readChar lx)) \<le> length (input (readChar lx))"
      using inside readChar_position [OF "1.prems"(1)]
      by (intro "1.IH" [OF True readChar_inv]) (simp add: readChar_input)
    moreover have "readIdentifier_loop lx = readIdentifier_loop (readChar lx)"
      using True by (subst readIdentifier_loop.simps) simp
    ultimately show ?thesis
      using readChar_position [OF "1.prems"(1)] by (simp add: readChar_input)
  next
    case False
    then show ?thesis using "1.prems" by (subst (1 2) readIdentifier_loop.simps) simp
  qed
qed

lemma readNumber_loop_position:
  "lexer_inv lx \<Longrightarrow> position lx \<le> length (input lx) \<Longrightarrow>
   position lx \<le> position (readNumber_loop lx) \<and>
   position (readNumber_loop lx) \<le> length (input lx)"
proof (induction lx rule: readNumber_loop.induct)
  case (1 lx)
  show ?case
  proof (cases "isDigit (ch lx)")
    case True
    then have "ch lx \<noteq> CHR 0x00" by (auto simp: isDigit_def)
    then have inside: "position lx < length (input lx)"
      using inv_letter_inside "1.prems"(1) by blast
    have "position (readChar lx) \<le> position (readNumber_loop (readChar lx)) \<and>
          position (readNumber_loop (readChar lx)) \<le> length (input (readChar lx))"
      using inside readChar_position [OF "1.prems"(1)]
      by (intro "1.IH" [OF True readChar_inv]) (simp add: readChar_input)
    moreover have "readNumber_loop lx = readNumber_loop (readChar lx)"
      using True by (subst readNumber_loop.simps) simp
    ultimately show ?thesis
      using readChar_position [OF "1.prems"(1)] by (simp add: readChar_input)
  next
    case False
    then show ?thesis using "1.prems" by (subst (1 2) readNumber_loop.simps) simp
  qed
qed

text \<open>
  The slices of \<open>readIdentifier\<close> and \<open>readNumber\<close> are in range in every state that
  satisfies the invariant: Go's slice expression does not panic there.
\<close>

lemma slice_bounds:
  assumes "lexer_inv lx" and "position lx \<le> length (input lx)"
  shows "position lx \<le> position (readIdentifier_loop lx) \<and>
         position (readIdentifier_loop lx) \<le> length (input lx) \<and>
         position lx \<le> position (readNumber_loop lx) \<and>
         position (readNumber_loop lx) \<le> length (input lx)"
  using readIdentifier_loop_position [OF assms] readNumber_loop_position [OF assms] by simp








lemmas lexer_eval = lexer_New_def readChar_def peekChar_def string_of_byte_def newToken_def
  isWhitespace_def isLetter_def isDigit_def skipWhitespace.simps readIdentifier_loop.simps
  readNumber_loop.simps slice_def readIdentifier_def readNumber_def two_char_token_def
  NextToken_def LookupIdent_def keywords_table_def Let_def

section \<open>Syntax tree (package ast, final snapshot)\<close>

text \<open>
  A field of interface type \<^verbatim>\<open>Expression\<close> and a field of pointer type
  \<^verbatim>\<open>*Identifier\<close> may be nil: both are options. The value carried by an integer
  literal is an \<^verbatim>\<open>int64\<close>; \<open>ParseInt\<close> below only ever delivers integers of that range.
\<close>

datatype Identifier = Identifier Token string

datatype Expression =
    IdentifierExpr Identifier
  | IntegerLiteral Token int
  | PrefixExpression Token string "Expression option"
  | InfixExpression Token "Expression option" string "Expression option"

datatype LetStatement = LetStatement Token "Identifier option" "Expression option"

datatype ReturnStatement = ReturnStatement Token "Expression option"

datatype ExpressionStatement = ExpressionStatement Token "Expression option"

text \<open>
  A value of the interface type \<^verbatim>\<open>Statement\<close> that is not nil holds a pointer of one of
  the three statement types, and that pointer may itself be nil. The nil interface is
  \<open>None\<close> of type \<open>Statement option\<close>.
\<close>

datatype Statement =
    LetStatementPtr "LetStatement option"
  | ReturnStatementPtr "ReturnStatement option"
  | ExpressionStatementPtr "ExpressionStatement option"

record Program =
  Statements :: "Statement list"

subsection \<open>Rendering\<close>

text \<open>
  \<^verbatim>\<open>String()\<close> panics when it calls a method on a nil interface or reads a field through
  a nil pointer; \<open>None\<close> is that panic.
\<close>

fun Identifier_String :: "Identifier option \<Rightarrow> string option" where
  "Identifier_String None = None"
| "Identifier_String (Some (Identifier tok v)) = Some v"

fun Expression_String :: "Expression \<Rightarrow> string option" where
  "Expression_String (IdentifierExpr i) = Identifier_String (Some i)"
| "Expression_String (IntegerLiteral tok v) = Some (Literal tok)"
| "Expression_String (PrefixExpression tok operator None) = None"
| "Expression_String (PrefixExpression tok operator (Some right)) =
     (case Expression_String right of
        None \<Rightarrow> None
      | Some r \<Rightarrow> Some (''('' @ operator @ r @ '')''))"
| "Expression_String (InfixExpression tok None operator right) = None"
| "Expression_String (InfixExpression tok (Some left) operator None) = None"
| "Expression_String (InfixExpression tok (Some left) operator (Some right)) =
     (case Expression_String left of
        None \<Rightarrow> None
      | Some l \<Rightarrow>
         (case Expression_String right of
            None \<Rightarrow> None
          | Some r \<Rightarrow> Some (''('' @ l @ '' '' @ operator @ '' '' @ r @ '')'')))"

fun LetStatement_String :: "LetStatement option \<Rightarrow> string option" where
  "LetStatement_String None = None"
| "LetStatement_String (Some (LetStatement tok name val)) =
     (case Identifier_String name of
        None \<Rightarrow> None
      | Some n \<Rightarrow>
         (case val of
            None \<Rightarrow> Some (Literal tok @ '' '' @ n @ '' = '' @ '';'')
          | Some e \<Rightarrow>
             (case Expression_String e of
                None \<Rightarrow> None
              | Some v \<Rightarrow> Some (Literal tok @ '' '' @ n @ '' = '' @ v @ '';''))))"

fun ReturnStatement_String :: "ReturnStatement option \<Rightarrow> string option" where
  "ReturnStatement_String None = None"
| "ReturnStatement_String (Some (ReturnStatement tok None)) = Some (Literal tok @ '' '' @ '';'')"
| "ReturnStatement_String (Some (ReturnStatement tok (Some e))) =
     (case Expression_String e of
        None \<Rightarrow> None
      | Some v \<Rightarrow> Some (Literal tok @ '' '' @ v @ '';''))"

fun ExpressionStatement_String :: "ExpressionStatement option \<Rightarrow> string option" where
  "ExpressionStatement_String None = None"
| "ExpressionStatement_String (Some (ExpressionStatement tok None)) = Some ''''"
| "ExpressionStatement_String (Some (ExpressionStatement tok (Some e))) = Expression_String e"

fun Statement_String :: "Statement \<Rightarrow> string option" where
  "Statement_String (LetStatementPtr ls) = LetStatement_String ls"
| "Statement_String (ReturnStatementPtr rs) = ReturnStatement_String rs"
| "Statement_String (ExpressionStatementPtr es) = ExpressionStatement_String es"

fun Statements_String :: "Statement list \<Rightarrow> string option" where
  "Statements_String [] = Some ''''"
| "Statements_String (s # ss) =
     (case Statement_String s of
        None \<Rightarrow> None
      | Some out \<Rightarrow>
         (case Statements_String ss of
            None \<Rightarrow> None
          | Some rest \<Rightarrow> Some (out @ rest)))"

definition Program_String :: "Program \<Rightarrow> string option" where
  "Program_String program = Statements_String (Statements program)"

section \<open>Integer conversion (Go's strconv.ParseInt with base 0 and bit size 64)\<close>

text \<open>
  The parser calls \<^verbatim>\<open>strconv.ParseInt(literal, 0, 64)\<close> of the Go standard library.
  With base 0 the base follows the prefix of the text (\<^verbatim>\<open>0b\<close>, \<^verbatim>\<open>0o\<close>, \<^verbatim>\<open>0x\<close>, a bare
  leading \<^verbatim>\<open>0\<close> for octal, decimal otherwise) and underscores may separate digits.
  The two errors are a malformed text and a value outside the 64-bit signed range.
\<close>

datatype NumError = ErrSyntax | ErrRange

text \<open>\<^verbatim>\<open>lower(c)\<close> is \<^verbatim>\<open>c | ('x' - 'X')\<close>: the byte with bit 5 set, as a number.\<close>

definition lower :: "char \<Rightarrow> nat" where
  "lower c = (if (of_char c :: nat) div 32 mod 2 = 1 then of_char c else of_char c + 32)"

text \<open>
  The base chosen from the prefix, and the digits that remain (98, 111 and 120 are the
  bytes \<open>b\<close>, \<open>o\<close> and \<open>x\<close>; 97, 102 and 122 are \<open>a\<close>, \<open>f\<close> and \<open>z\<close>).
\<close>

definition base_prefix :: "string \<Rightarrow> nat \<times> string" where
  "base_prefix s =
     (if s \<noteq> [] \<and> hd s = CHR ''0'' then
        (if 3 \<le> length s \<and> lower (s ! 1) = 98 then (2, drop 2 s)
         else if 3 \<le> length s \<and> lower (s ! 1) = 111 then (8, drop 2 s)
         else if 3 \<le> length s \<and> lower (s ! 1) = 120 then (16, drop 2 s)
         else (8, drop 1 s))
      else (10, s))"

definition digit_val :: "char \<Rightarrow> nat option" where
  "digit_val c =
     (if CHR ''0'' \<le> c \<and> c \<le> CHR ''9'' then Some ((of_char c :: nat) - 48)
      else if 97 \<le> lower c \<and> lower c \<le> 122 then Some (lower c - 97 + 10)
      else None)"

abbreviation maxUint64 :: nat where "maxUint64 \<equiv> 18446744073709551615"

text \<open>The digit loop of \<open>ParseUint\<close>: \<open>n\<close> is the value so far.\<close>

fun ParseUint_digits :: "nat \<Rightarrow> nat \<Rightarrow> string \<Rightarrow> NumError + nat" where
  "ParseUint_digits b n [] = Inr n"
| "ParseUint_digits b n (c # cs) =
     (if c = CHR ''_'' then ParseUint_digits b n cs
      else case digit_val c of
        None \<Rightarrow> Inl ErrSyntax
      | Some d \<Rightarrow>
          if b \<le> d then Inl ErrSyntax
          else if maxUint64 div b + 1 \<le> n then Inl ErrRange
          else if maxUint64 < n * b + d then Inl ErrRange
          else ParseUint_digits b (n * b + d) cs)"

text \<open>
  \<open>underscoreOK\<close>: underscores only between digits (the base prefix counts as a
  digit). \<open>saw\<close> is the kind of the last character seen: a digit \<open>0\<close>, an underscore
  \<open>_\<close>, the beginning \<open>^\<close>, or anything else \<open>!\<close>.
\<close>

fun underscoreOK_loop :: "bool \<Rightarrow> char \<Rightarrow> string \<Rightarrow> bool" where
  "underscoreOK_loop hex saw [] = (saw \<noteq> CHR ''_'')"
| "underscoreOK_loop hex saw (c # cs) =
     (if (CHR ''0'' \<le> c \<and> c \<le> CHR ''9'') \<or> (hex \<and> 97 \<le> lower c \<and> lower c \<le> 102)
      then underscoreOK_loop hex (CHR ''0'') cs
      else if c = CHR ''_'' then (if saw \<noteq> CHR ''0'' then False else underscoreOK_loop hex (CHR ''_'') cs)
      else if saw = CHR ''_'' then False
      else underscoreOK_loop hex (CHR ''!'') cs)"

definition underscoreOK :: "string \<Rightarrow> bool" where
  "underscoreOK s0 =
     (let s = (if 1 \<le> length s0 \<and> (hd s0 = CHR ''-'' \<or> hd s0 = CHR ''+'') then tl s0 else s0) in
      if 2 \<le> length s \<and> hd s = CHR ''0'' \<and>
         (lower (s ! 1) = 98 \<or> lower (s ! 1) = 111 \<or> lower (s ! 1) = 120)
      then underscoreOK_loop (lower (s ! 1) = 120) (CHR ''0'') (drop 2 s)
      else underscoreOK_loop False (CHR ''^'') s)"

definition ParseUint :: "string \<Rightarrow> NumError + nat" where
  "ParseUint s =
     (if s = [] then Inl ErrSyntax
      else let (b, ds) = base_prefix s in
        case ParseUint_digits b 0 ds of
          Inl e \<Rightarrow> Inl e
        | Inr n \<Rightarrow> if CHR ''_'' \<in> set ds \<and> \<not> underscoreOK s then Inl ErrSyntax else Inr n)"

definition ParseInt :: "string \<Rightarrow> NumError + int" where
  "ParseInt s0 =
     (if s0 = [] then Inl ErrSyntax
      else let neg = (hd s0 = CHR ''-'');
               s = (if hd s0 = CHR ''+'' \<or> hd s0 = CHR ''-'' then tl s0 else s0)
        in case ParseUint s of
             Inl e \<Rightarrow> Inl e
           | Inr un \<Rightarrow>
               if \<not> neg \<and> 9223372036854775808 \<le> un then Inl ErrRange
               else if neg \<and> 9223372036854775808 < un then Inl ErrRange
               else Inr (if neg then - int un else int un))"

text \<open>
  The verb \<^verbatim>\<open>%q\<close> of \<^verbatim>\<open>fmt.Sprintf\<close>: the text in double quotes, with \<^verbatim>\<open>"\<close> and
  \<^verbatim>\<open>\\<close> escaped by a backslash. Bytes outside printable ASCII get further escapes in Go;
  the literal of an INT token is a run of decimal digits, so they play no part here.
\<close>

definition fmt_q :: "string \<Rightarrow> string" where
  "fmt_q s =
     [CHR 0x22] @
     concat (map (\<lambda>c. if c = CHR 0x22 \<or> c = CHR 0x5C then [CHR 0x5C, c] else [c]) s) @
     [CHR 0x22]"

section \<open>Parser (package parser, final snapshot)\<close>

abbreviation LOWEST :: int where "LOWEST \<equiv> 1"
abbreviation EQUALS :: int where "EQUALS \<equiv> 2"
abbreviation LESSGREATER :: int where "LESSGREATER \<equiv> 3"
abbreviation SUM_P :: int where "SUM_P \<equiv> 4"
abbreviation PRODUCT :: int where "PRODUCT \<equiv> 5"
abbreviation PREFIX :: int where "PREFIX \<equiv> 6"
abbreviation CALL :: int where "CALL \<equiv> 7"

definition precedences :: "Type \<rightharpoonup> int" where
  "precedences = map_of
     [(EQ, EQUALS), (NEQ, EQUALS), (LT, LESSGREATER), (GT, LESSGREATER),
      (PLUS, SUM_P), (MINUS, SUM_P), (SLASH, PRODUCT), (ASTERISK, PRODUCT)]"

text \<open>
  The parser holds its scanner, the two buffered tokens and the diagnostics. The two rule
  tables are filled once by \<open>New\<close> and never change; they are the constants
  \<open>prefixParseFns\<close> and \<open>infixParseFns\<close>, whose entries name the rule registered.
\<close>

record Parser =
  lexer :: Lexer
  curToken :: Token
  peekToken :: Token
  errors :: "string list"

datatype prefixParseFn = parseIdentifier_rule | parseIntegerLiteral_rule | parsePrefixExpression_rule

datatype infixParseFn = parseInfixExpression_rule

definition prefixParseFns :: "Type \<rightharpoonup> prefixParseFn" where
  "prefixParseFns = Map.empty
     (IDENT \<mapsto> parseIdentifier_rule, INT_T \<mapsto> parseIntegerLiteral_rule,
      BANG \<mapsto> parsePrefixExpression_rule, MINUS \<mapsto> parsePrefixExpression_rule)"

definition infixParseFns :: "Type \<rightharpoonup> infixParseFn" where
  "infixParseFns = Map.empty
     (PLUS \<mapsto> parseInfixExpression_rule, MINUS \<mapsto> parseInfixExpression_rule,
      SLASH \<mapsto> parseInfixExpression_rule, ASTERISK \<mapsto> parseInfixExpression_rule,
      EQ \<mapsto> parseInfixExpression_rule, NEQ \<mapsto> parseInfixExpression_rule,
      LT \<mapsto> parseInfixExpression_rule, GT \<mapsto> parseInfixExpression_rule)"

definition nextToken :: "Parser \<Rightarrow> Parser" where
  "nextToken p =
     (let (tok, lx) = NextToken (lexer p)
      in p\<lparr>curToken := peekToken p, peekToken := tok, lexer := lx\<rparr>)"

definition parser_New :: "Lexer \<Rightarrow> Parser" where
  "parser_New lx =
     nextToken (nextToken
       \<lparr>lexer = lx, curToken = \<lparr>Type = '''', Literal = ''''\<rparr>,
        peekToken = \<lparr>Type = '''', Literal = ''''\<rparr>, errors = []\<rparr>)"

definition curTokenIs :: "Parser \<Rightarrow> Type \<Rightarrow> bool" where
  "curTokenIs p t \<longleftrightarrow> Type (curToken p) = t"

definition peekTokenIs :: "Parser \<Rightarrow> Type \<Rightarrow> bool" where
  "peekTokenIs p t \<longleftrightarrow> Type (peekToken p) = t"

definition peekError :: "Type \<Rightarrow> Parser \<Rightarrow> Parser" where
  "peekError t p =
     p\<lparr>errors := errors p @
        [''expected next token to be '' @ t @ '', got '' @ Type (peekToken p) @ '' instead'']\<rparr>"

definition expectPeek :: "Type \<Rightarrow> Parser \<Rightarrow> bool \<times> Parser" where
  "expectPeek t p = (if peekTokenIs p t then (True, nextToken p) else (False, peekError t p))"

definition Errors :: "Parser \<Rightarrow> string list" where
  "Errors p = errors p"

definition peekPrecedence :: "Parser \<Rightarrow> int" where
  "peekPrecedence p = (case precedences (Type (peekToken p)) of Some pr \<Rightarrow> pr | None \<Rightarrow> LOWEST)"

definition curPrecedence :: "Parser \<Rightarrow> int" where
  "curPrecedence p = (case precedences (Type (curToken p)) of Some pr \<Rightarrow> pr | None \<Rightarrow> LOWEST)"

definition noPrefixParseFnError :: "Type \<Rightarrow> Parser \<Rightarrow> Parser" where
  "noPrefixParseFnError t p =
     p\<lparr>errors := errors p @ [''no prefix parse function for '' @ t @ '' found'']\<rparr>"

definition parseIdentifier :: "Parser \<Rightarrow> Expression option \<times> Parser" where
  "parseIdentifier p = (Some (IdentifierExpr (Identifier (curToken p) (Literal (curToken p)))), p)"

definition parseIntegerLiteral :: "Parser \<Rightarrow> Expression option \<times> Parser" where
  "parseIntegerLiteral p =
     (case ParseInt (Literal (curToken p)) of
        Inl err \<Rightarrow>
          (None, p\<lparr>errors := errors p @
                     [''could not parse '' @ fmt_q (Literal (curToken p)) @ '' as integer'']\<rparr>)
      | Inr v \<Rightarrow> (Some (IntegerLiteral (curToken p) v), p))"

subsection \<open>A measure of the tokens still to come\<close>

text \<open>
  Termination of the expression parser: every recursive call is made after \<open>nextToken\<close>
  has dropped a token that is not EOF, and the number of such tokens still to come (the two
  buffered ones and those the scanner can still produce) is finite.
\<close>

definition tok_weight :: "Token \<Rightarrow> nat" where
  "tok_weight tok = (if Type tok = EOF then 0 else 1)"

definition lexer_left :: "Lexer \<Rightarrow> nat" where
  "lexer_left lx =
     2 * (length (input lx) + 1 - readPosition lx) + (if ch lx = CHR 0x00 then 0 else 1)"

definition tokens_left :: "Parser \<Rightarrow> nat" where
  "tokens_left p = tok_weight (curToken p) + tok_weight (peekToken p) + lexer_left (lexer p)"

lemma readChar_left: "lexer_left (readChar lx) \<le> lexer_left lx"
  by (auto simp: lexer_left_def readChar_def)

lemma readChar_left_strict: "ch lx \<noteq> CHR 0x00 \<Longrightarrow> lexer_left (readChar lx) < lexer_left lx"
  by (auto simp: lexer_left_def readChar_def)

lemma skipWhitespace_left: "lexer_left (skipWhitespace lx) \<le> lexer_left lx"
proof (induction lx rule: skipWhitespace.induct)
  case (1 lx)
  show ?case
  proof (cases "isWhitespace (ch lx)")
    case True
    then have "lexer_left (skipWhitespace lx) \<le> lexer_left (readChar lx)"
      using "1.IH" by (subst skipWhitespace.simps) simp
    then show ?thesis using readChar_left [of lx] by simp
  next
    case False
    then show ?thesis by (subst skipWhitespace.simps) simp
  qed
qed

lemma readIdentifier_loop_left: "lexer_left (readIdentifier_loop lx) \<le> lexer_left lx"
proof (induction lx rule: readIdentifier_loop.induct)
  case (1 lx)
  show ?case
  proof (cases "isLetter (ch lx)")
    case True
    then have "lexer_left (readIdentifier_loop lx) \<le> lexer_left (readChar lx)"
      using "1.IH" by (subst readIdentifier_loop.simps) simp
    then show ?thesis using readChar_left [of lx] by simp
  next
    case False
    then show ?thesis by (subst readIdentifier_loop.simps) simp
  qed
qed

lemma readNumber_loop_left: "lexer_left (readNumber_loop lx) \<le> lexer_left lx"
proof (induction lx rule: readNumber_loop.induct)
  case (1 lx)
  show ?case
  proof (cases "isDigit (ch lx)")
    case True
    then have "lexer_left (readNumber_loop lx) \<le> lexer_left (readChar lx)"
      using "1.IH" by (subst readNumber_loop.simps) simp
    then show ?thesis using readChar_left [of lx] by simp
  next
    case False
    then show ?thesis by (subst readNumber_loop.simps) simp
  qed
qed

lemma readIdentifier_loop_left_strict:
  assumes "isLetter (ch lx)"
  shows "lexer_left (readIdentifier_loop lx) < lexer_left lx"
proof -
  have "ch lx \<noteq> CHR 0x00" using assms by (auto simp: isLetter_def)
  then have "lexer_left (readChar lx) < lexer_left lx" by (rule readChar_left_strict)
  moreover have "readIdentifier_loop lx = readIdentifier_loop (readChar lx)"
    using assms by (subst readIdentifier_loop.simps) simp
  ultimately show ?thesis using readIdentifier_loop_left [of "readChar lx"] by simp
qed

lemma readNumber_loop_left_strict:
  assumes "isDigit (ch lx)"
  shows "lexer_left (readNumber_loop lx) < lexer_left lx"
proof -
  have "ch lx \<noteq> CHR 0x00" using assms by (auto simp: isDigit_def)
  then have "lexer_left (readChar lx) < lexer_left lx" by (rule readChar_left_strict)
  moreover have "readNumber_loop lx = readNumber_loop (readChar lx)"
    using assms by (subst readNumber_loop.simps) simp
  ultimately show ?thesis using readNumber_loop_left [of "readChar lx"] by simp
qed

lemma NextToken_step_left:
  assumes "\<not> isWhitespace (ch lx)"
  shows "tok_weight (fst (NextToken lx)) + lexer_left (snd (NextToken lx)) \<le> lexer_left lx"
proof -
  have sk: "skipWhitespace lx = lx" using assms by (subst skipWhitespace.simps) simp
  have le1: "tok_weight t \<le> 1" for t by (simp add: tok_weight_def)
  show ?thesis
  proof (cases "ch lx = CHR 0x00")
    case True
    then show ?thesis
      using readChar_left [of lx]
      by (simp add: NextToken_def sk Let_def tok_weight_def)
  next
    case False
    have r1: "Suc (lexer_left (readChar lx)) \<le> lexer_left lx"
      using readChar_left_strict [OF False] by simp
    have r2: "Suc (lexer_left (readChar (readChar lx))) \<le> lexer_left lx"
      using r1 readChar_left [of "readChar lx"] by simp
    have r3: "isLetter (ch lx) \<Longrightarrow> Suc (lexer_left (readIdentifier_loop lx)) \<le> lexer_left lx"
      using readIdentifier_loop_left_strict [of lx] by simp
    have r4: "isDigit (ch lx) \<Longrightarrow> Suc (lexer_left (readNumber_loop lx)) \<le> lexer_left lx"
      using readNumber_loop_left_strict [of lx] by simp
    have w: "tok_weight t + n \<le> m" if "Suc n \<le> m" for t n m
      using that le1 [of t] by simp
    show ?thesis
      using False
      by (auto simp add: NextToken_def sk Let_def two_char_token_def readIdentifier_def
          readNumber_def intro!: w r1 r2 r3 r4)
  qed
qed

lemma skipWhitespace_stops: "\<not> isWhitespace (ch (skipWhitespace lx))"
  by (induction lx rule: skipWhitespace.induct)
     (subst skipWhitespace.simps, simp)

lemma skipWhitespace_idem: "skipWhitespace (skipWhitespace lx) = skipWhitespace lx"
  using skipWhitespace_stops [of lx] by (subst skipWhitespace.simps) simp

lemma NextToken_skipWhitespace: "NextToken (skipWhitespace lx) = NextToken lx"
  by (simp add: NextToken_def skipWhitespace_idem)

lemma NextToken_left:
  "tok_weight (fst (NextToken lx)) + lexer_left (snd (NextToken lx)) \<le> lexer_left lx"
  using NextToken_step_left [OF skipWhitespace_stops, of lx] skipWhitespace_left [of lx]
  by (simp add: NextToken_skipWhitespace)

lemma nextToken_left: "tok_weight (curToken p) + tokens_left (nextToken p) \<le> tokens_left p"
  using NextToken_left [of "lexer p"]
  by (simp add: tokens_left_def nextToken_def case_prod_beta)

lemma nextToken_left_le: "tokens_left (nextToken p) \<le> tokens_left p"
  using nextToken_left [of p] by simp

lemma nextToken_left_strict:
  "Type (curToken p) \<noteq> EOF \<Longrightarrow> tokens_left (nextToken p) < tokens_left p"
  using nextToken_left [of p] by (simp add: tok_weight_def)

lemma curToken_nextToken: "curToken (nextToken p) = peekToken p"
  by (simp add: nextToken_def case_prod_beta)

lemma errors_nextToken: "errors (nextToken p) = errors p"
  by (simp add: nextToken_def case_prod_beta)

lemma tokens_left_errors: "tokens_left (p\<lparr>errors := es\<rparr>) = tokens_left p"
  by (simp add: tokens_left_def)

lemma parseIdentifier_left: "tokens_left (snd (parseIdentifier p)) = tokens_left p"
  by (simp add: parseIdentifier_def)

lemma parseIntegerLiteral_left: "tokens_left (snd (parseIntegerLiteral p)) = tokens_left p"
  by (simp add: parseIntegerLiteral_def tokens_left_errors split: sum.split)

lemma infix_rule_not_EOF: "infixParseFns t = Some r \<Longrightarrow> t \<noteq> EOF"
  by (auto simp: infixParseFns_def split: if_splits)

lemma prefix_rule_not_EOF: "prefixParseFns t = Some r \<Longrightarrow> t \<noteq> EOF"
  by (auto simp: prefixParseFns_def split: if_splits)

function parseExpression :: "int \<Rightarrow> Parser \<Rightarrow> Expression option \<times> Parser"
  and parseExpression_loop :: "int \<Rightarrow> Expression option \<Rightarrow> Parser \<Rightarrow> Expression option \<times> Parser"
  and parsePrefixExpression :: "Parser \<Rightarrow> Expression option \<times> Parser"
  and parseInfixExpression :: "Expression option \<Rightarrow> Parser \<Rightarrow> Expression option \<times> Parser"
where
  "parseExpression precedence p =
     (case prefixParseFns (Type (curToken p)) of
        None \<Rightarrow> (None, noPrefixParseFnError (Type (curToken p)) p)
      | Some parseIdentifier_rule \<Rightarrow>
          (let (leftExp, p') = parseIdentifier p in parseExpression_loop precedence leftExp p')
      | Some parseIntegerLiteral_rule \<Rightarrow>
          (let (leftExp, p') = parseIntegerLiteral p in parseExpression_loop precedence leftExp p')
      | Some parsePrefixExpression_rule \<Rightarrow>
          (let (leftExp, p') = parsePrefixExpression p in parseExpression_loop precedence leftExp p'))"
| "parseExpression_loop precedence leftExp p =
     (if \<not> peekTokenIs p SEMICOLON \<and> precedence < peekPrecedence p then
        (case infixParseFns (Type (peekToken p)) of
           None \<Rightarrow> (leftExp, p)
         | Some parseInfixExpression_rule \<Rightarrow>
             (let (leftExp', p') = parseInfixExpression leftExp (nextToken p)
              in parseExpression_loop precedence leftExp' p'))
      else (leftExp, p))"
| "parsePrefixExpression p =
     (let (right, p') = parseExpression PREFIX (nextToken p)
      in (Some (PrefixExpression (curToken p) (Literal (curToken p)) right), p'))"
| "parseInfixExpression left p =
     (let (right, p') = parseExpression (curPrecedence p) (nextToken p)
      in (Some (InfixExpression (curToken p) left (Literal (curToken p)) right), p'))"
  by pat_completeness auto

lemma parse_dom_left:
  "parseExpression_parseExpression_loop_parsePrefixExpression_parseInfixExpression_dom (Inl (Inl (precedence, p)))
     \<Longrightarrow> tokens_left (snd (parseExpression precedence p)) \<le> tokens_left p"
  "parseExpression_parseExpression_loop_parsePrefixExpression_parseInfixExpression_dom (Inl (Inr (precedence, leftExp, p)))
     \<Longrightarrow> tokens_left (snd (parseExpression_loop precedence leftExp p)) \<le> tokens_left p"
  "parseExpression_parseExpression_loop_parsePrefixExpression_parseInfixExpression_dom (Inr (Inl p))
     \<Longrightarrow> tokens_left (snd (parsePrefixExpression p)) \<le> tokens_left (nextToken p)"
  "parseExpression_parseExpression_loop_parsePrefixExpression_parseInfixExpression_dom (Inr (Inr (left, p)))
     \<Longrightarrow> tokens_left (snd (parseInfixExpression left p)) \<le> tokens_left (nextToken p)"
proof (induction precedence p and precedence leftExp p and p and left p
    rule: parseExpression_parseExpression_loop_parsePrefixExpression_parseInfixExpression.pinduct)
  case (1 precedence p)
  note eq = parseExpression.psimps [OF "1.hyps"]
  show ?case
  proof (cases "prefixParseFns (Type (curToken p))")
    case None
    then show ?thesis
      by (simp add: eq noPrefixParseFnError_def tokens_left_errors)
  next
    case (Some r)
    show ?thesis
    proof (cases r)
      case parseIdentifier_rule
      have "tokens_left (snd (parseExpression_loop precedence (fst (parseIdentifier p)) (snd (parseIdentifier p))))
              \<le> tokens_left (snd (parseIdentifier p))"
        by (rule "1.IH"(1) [OF Some parseIdentifier_rule refl]) simp
      then show ?thesis
        using Some parseIdentifier_rule
        by (simp add: eq case_prod_beta parseIdentifier_left)
    next
      case parseIntegerLiteral_rule
      have "tokens_left (snd (parseExpression_loop precedence (fst (parseIntegerLiteral p)) (snd (parseIntegerLiteral p))))
              \<le> tokens_left (snd (parseIntegerLiteral p))"
        by (rule "1.IH"(2) [OF Some parseIntegerLiteral_rule refl]) simp
      then show ?thesis
        using Some parseIntegerLiteral_rule
        by (simp add: eq case_prod_beta parseIntegerLiteral_left)
    next
      case parsePrefixExpression_rule
      have a: "tokens_left (snd (parsePrefixExpression p)) \<le> tokens_left (nextToken p)"
        by (rule "1.IH"(3) [OF Some parsePrefixExpression_rule])
      have b: "tokens_left (snd (parseExpression_loop precedence (fst (parsePrefixExpression p)) (snd (parsePrefixExpression p))))
              \<le> tokens_left (snd (parsePrefixExpression p))"
        by (rule "1.IH"(4) [OF Some parsePrefixExpression_rule refl]) simp
      show ?thesis
        using Some parsePrefixExpression_rule a b nextToken_left_le [of p]
        by (simp add: eq case_prod_beta)
    qed
  qed
next
  case (2 precedence leftExp p)
  note eq = parseExpression_loop.psimps [OF "2.hyps"]
  show ?case
  proof (cases "\<not> peekTokenIs p SEMICOLON \<and> precedence < peekPrecedence p")
    case False
    then show ?thesis by (auto simp: eq)
  next
    case True
    show ?thesis
    proof (cases "infixParseFns (Type (peekToken p))")
      case None
      then show ?thesis using True by (simp add: eq)
    next
      case (Some r)
      have r: "r = parseInfixExpression_rule" by (cases r) simp
      let ?res = "parseInfixExpression leftExp (nextToken p)"
      have a: "tokens_left (snd ?res) \<le> tokens_left (nextToken (nextToken p))"
        by (rule "2.IH"(1) [OF True Some r])
      have b: "tokens_left (snd (parseExpression_loop precedence (fst ?res) (snd ?res)))
              \<le> tokens_left (snd ?res)"
        by (rule "2.IH"(2) [OF True Some r refl]) simp
      show ?thesis
        using True Some r a b nextToken_left_le [of p] nextToken_left_le [of "nextToken p"]
        by (simp add: eq case_prod_beta)
    qed
  qed
next
  case (3 p)
  then show ?case
    by (simp add: parsePrefixExpression.psimps [OF "3.hyps"] case_prod_beta)
next
  case (4 left p)
  then show ?case
    by (simp add: parseInfixExpression.psimps [OF "4.hyps"] case_prod_beta)
qed

definition parse_measure ::
  "(int \<times> Parser + int \<times> Expression option \<times> Parser) + (Parser + Expression option \<times> Parser) \<Rightarrow> nat" where
  "parse_measure call =
     (case call of
        Inl (Inl (precedence, p)) \<Rightarrow> 4 * tokens_left p + 2
      | Inl (Inr (precedence, leftExp, p)) \<Rightarrow> 4 * tokens_left p + 1
      | Inr (Inl p) \<Rightarrow> 4 * tokens_left p + (if Type (curToken p) = EOF then 3 else 0)
      | Inr (Inr (left, p)) \<Rightarrow> 4 * tokens_left p + (if Type (curToken p) = EOF then 3 else 0))"

termination parseExpression
proof (relation "measure parse_measure", goal_cases)
  case 1
  show ?case by simp
next
  case (2 precedence p x2 x xa y)
  then show ?case by (auto simp: case_prod_beta parse_measure_def parseIdentifier_def)
next
  case (3 precedence p x2 x xa y)
  then show ?case
    using parseIntegerLiteral_left [of p] by (auto simp: case_prod_beta parse_measure_def)
next
  case (4 precedence p x2)
  then show ?case
    using prefix_rule_not_EOF [of "Type (curToken p)"] by (auto simp: case_prod_beta parse_measure_def)
next
  case (5 precedence p x2 x xa y)
  then show ?case
    using parse_dom_left(3) [of p] nextToken_left_le [of p] by (auto simp: case_prod_beta parse_measure_def)
next
  case (6 precedence leftExp p x2)
  then show ?case
    using infix_rule_not_EOF [of "Type (peekToken p)"] nextToken_left_le [of p]
    by (auto simp: case_prod_beta parse_measure_def curToken_nextToken)
next
  case (7 precedence leftExp p x2 x xa y)
  then show ?case
    using parse_dom_left(4) [of leftExp "nextToken p"] infix_rule_not_EOF [of "Type (peekToken p)"]
      nextToken_left_le [of p] nextToken_left_strict [of "nextToken p"]
    by (auto simp: case_prod_beta parse_measure_def curToken_nextToken)
next
  case (8 p)
  then show ?case
    using nextToken_left [of p] by (auto simp: case_prod_beta parse_measure_def tok_weight_def split: if_splits)
next
  case (9 left p)
  then show ?case
    using nextToken_left [of p] by (auto simp: case_prod_beta parse_measure_def tok_weight_def split: if_splits)
qed

lemmas parseExpression_simps = parseExpression.simps parseExpression_loop.simps
  parsePrefixExpression.simps parseInfixExpression.simps

declare parseExpression_simps [simp del]

subsection \<open>Statements\<close>

text \<open>
  The loop \<^verbatim>\<open>for !p.curTokenIs(token.SEMICOLON) { p.nextToken() }\<close>, which
  \<open>parseLetStatement\<close> and \<open>parseReturnStatement\<close> both run. It has no other exit, so it
  may run forever: \<open>None\<close> is the loop that does not end.
\<close>

partial_function (option) skipToSemicolon :: "Parser \<Rightarrow> Parser option" where
  "skipToSemicolon p = (if \<not> curTokenIs p SEMICOLON then skipToSemicolon (nextToken p) else Some p)"

declare skipToSemicolon.simps [code]

text \<open>
  The statement parsers return a pointer (\<open>None\<close> is the nil pointer) and the parser after
  the call; the outer option is \<open>None\<close> when the call does not return.
\<close>

definition parseLetStatement :: "Parser \<Rightarrow> (LetStatement option \<times> Parser) option" where
  "parseLetStatement p =
     (let tok = curToken p; (ok, p1) = expectPeek IDENT p in
      if \<not> ok then Some (None, p1)
      else
        let name = Identifier (curToken p1) (Literal (curToken p1));
            (ok', p2) = expectPeek ASSIGN p1 in
        if \<not> ok' then Some (None, p2)
        else
          case skipToSemicolon p2 of
            None \<Rightarrow> None
          | Some p3 \<Rightarrow> Some (Some (LetStatement tok (Some name) None), p3))"

definition parseReturnStatement :: "Parser \<Rightarrow> (ReturnStatement option \<times> Parser) option" where
  "parseReturnStatement p =
     (case skipToSemicolon (nextToken p) of
        None \<Rightarrow> None
      | Some p' \<Rightarrow> Some (Some (ReturnStatement (curToken p) None), p'))"

definition parseExpressionStatement :: "Parser \<Rightarrow> ExpressionStatement option \<times> Parser" where
  "parseExpressionStatement p =
     (let (e, p1) = parseExpression LOWEST p;
          p2 = (if peekTokenIs p1 SEMICOLON then nextToken p1 else p1)
      in (Some (ExpressionStatement (curToken p) e), p2))"

text \<open>
  \<open>parseStatement\<close> returns the interface type \<^verbatim>\<open>ast.Statement\<close>. Each branch converts
  the pointer it got to the interface, and in Go an interface made from a pointer is not nil
  even when the pointer is: the result is always \<open>Some\<close>, also around the nil
  \<^verbatim>\<open>*ast.LetStatement\<close> of a failed \<open>let\<close>.
\<close>

definition parseStatement :: "Parser \<Rightarrow> (Statement option \<times> Parser) option" where
  "parseStatement p =
     (if Type (curToken p) = LET then
        (case parseLetStatement p of
           None \<Rightarrow> None
         | Some (ls, p') \<Rightarrow> Some (Some (LetStatementPtr ls), p'))
      else if Type (curToken p) = RETURN then
        (case parseReturnStatement p of
           None \<Rightarrow> None
         | Some (rs, p') \<Rightarrow> Some (Some (ReturnStatementPtr rs), p'))
      else
        (let (es, p') = parseExpressionStatement p in Some (Some (ExpressionStatementPtr es), p')))"

text \<open>The loop of \<open>ParseProgram\<close>, with the statements collected so far.\<close>

partial_function (option) ParseProgram_loop :: "Program \<Rightarrow> Parser \<Rightarrow> (Program \<times> Parser) option" where
  "ParseProgram_loop program p =
     (if \<not> curTokenIs p EOF then
        (case parseStatement p of
           None \<Rightarrow> None
         | Some (stmt, p') \<Rightarrow>
             ParseProgram_loop
               (case stmt of
                  None \<Rightarrow> program
                | Some s \<Rightarrow> program\<lparr>Statements := Statements program @ [s]\<rparr>)
               (nextToken p'))
      else Some (program, p))"

declare ParseProgram_loop.simps [code]

definition ParseProgram :: "Parser \<Rightarrow> (Program \<times> Parser) option" where
  "ParseProgram p = ParseProgram_loop \<lparr>Statements = []\<rparr> p"

text \<open>
  Parsing a whole text: the program and the diagnostics, or \<open>None\<close> when
  \<open>ParseProgram\<close> does not return.
\<close>

definition parse :: "string \<Rightarrow> (Program \<times> string list) option" where
  "parse inp =
     (case ParseProgram (parser_New (lexer_New inp)) of
        None \<Rightarrow> None
      | Some (program, p) \<Rightarrow> Some (program, Errors p))"

text \<open>The rendering of the program parsed from a text; \<open>None\<close> when rendering panics.\<close>

definition render :: "string \<Rightarrow> string option" where
  "render inp = (case parse inp of None \<Rightarrow> None | Some (program, errs) \<Rightarrow> Program_String program)"

text \<open>
  What the minimal variant of the grammar builds: a \<open>let\<close> statement with its name and
  without value, a \<open>return\<close> statement without value. A nil pointer of either type is
  no such statement: it has no name to read.
\<close>

fun minimal_statement :: "Statement \<Rightarrow> bool" where
  "minimal_statement (LetStatementPtr None) = False"
| "minimal_statement (LetStatementPtr (Some (LetStatement tok name val))) =
     (name \<noteq> None \<and> val = None)"
| "minimal_statement (ReturnStatementPtr None) = False"
| "minimal_statement (ReturnStatementPtr (Some (ReturnStatement tok val))) = (val = None)"
| "minimal_statement (ExpressionStatementPtr es) = True"

lemmas parser_eval = precedences_def prefixParseFns_def infixParseFns_def nextToken_def
  parser_New_def curTokenIs_def peekTokenIs_def peekError_def expectPeek_def Errors_def
  peekPrecedence_def curPrecedence_def noPrefixParseFnError_def parseIdentifier_def
  parseIntegerLiteral_def skipToSemicolon.simps parseLetStatement_def parseReturnStatement_def
  parseExpressionStatement_def parseStatement_def ParseProgram_loop.simps ParseProgram_def
  parse_def render_def Program_String_def parseExpression_simps

lemmas ParseInt_eval = ParseInt_def ParseUint_def base_prefix_def digit_val_def lower_def
  underscoreOK_def fmt_q_def

subsection \<open>Facts about the helpers\<close>

lemma nextToken_errors: "nextToken (p\<lparr>errors := es\<rparr>) = (nextToken p)\<lparr>errors := es\<rparr>"
  by (simp add: nextToken_def case_prod_beta)

lemma ParseInt_range:
  assumes "ParseInt s = Inr v"
  shows "- 9223372036854775808 \<le> v \<and> v < 9223372036854775808"
  using assms
  by (auto simp: ParseInt_def Let_def split: if_splits sum.splits)

subsection \<open>When the skipping loop ends\<close>











subsection \<open>Parsing only moves forward in the token sequence\<close>

text \<open>
  \<open>advanced p q\<close>: the scanner and the two buffered tokens of \<open>q\<close> are those of \<open>p\<close>
  after some number of \<open>nextToken\<close> calls; the diagnostics may differ.
\<close>

definition same_tokens :: "Parser \<Rightarrow> Parser \<Rightarrow> bool" where
  "same_tokens p q \<longleftrightarrow> lexer p = lexer q \<and> curToken p = curToken q \<and> peekToken p = peekToken q"

definition advanced :: "Parser \<Rightarrow> Parser \<Rightarrow> bool" where
  "advanced p q \<longleftrightarrow> (\<exists>k. same_tokens q ((nextToken ^^ k) p))"






lemma same_tokens_left: "same_tokens p q \<Longrightarrow> tokens_left p = tokens_left q"
  by (simp add: same_tokens_def tokens_left_def)






lemma funpow_left: "tokens_left ((nextToken ^^ n) p) \<le> tokens_left p"
proof (induction n)
  case 0
  show ?case by simp
next
  case (Suc n)
  then show ?case using nextToken_left_le [of "(nextToken ^^ n) p"] by simp
qed

lemma advanced_left: "advanced p q \<Longrightarrow> tokens_left q \<le> tokens_left p"
  using funpow_left same_tokens_left by (auto simp: advanced_def)



subsection \<open>When parsing returns\<close>












subsection \<open>The tokens the parser will see\<close>











section \<open>Scanning and parsing texts with unknown words\<close>

text \<open>
  The scanner in the middle of a text: \<open>scanning pre suf\<close> has read \<open>pre\<close> and has the
  first character of \<open>suf\<close> under its cursor. \<open>scanned inp n\<close> is \<open>n\<close> positions past the end.
\<close>

definition scanning :: "string \<Rightarrow> string \<Rightarrow> Lexer" where
  "scanning pre suf =
     \<lparr>input = pre @ suf, position = length pre, readPosition = length pre + 1,
      ch = (case suf of [] \<Rightarrow> CHR 0x00 | c # cs \<Rightarrow> c)\<rparr>"

definition scanned :: "string \<Rightarrow> nat \<Rightarrow> Lexer" where
  "scanned inp n =
     \<lparr>input = inp, position = length inp + n, readPosition = length inp + n + 1, ch = CHR 0x00\<rparr>"

lemma lexer_New_scanning: "lexer_New inp = scanning [] inp"
  by (cases inp) (simp_all add: lexer_New_def readChar_def scanning_def)

lemma ch_scanning [simp]:
  "ch (scanning pre (c # cs)) = c" "ch (scanning pre []) = CHR 0x00"
  by (simp_all add: scanning_def)

lemma scanning_Nil: "scanning pre [] = scanned pre 0"
  by (simp add: scanning_def scanned_def)

lemma readChar_scanning: "readChar (scanning pre (c # cs)) = scanning (pre @ [c]) cs"
  by (cases cs) (simp_all add: readChar_def scanning_def nth_append)

lemma readChar_scanned: "readChar (scanned inp n) = scanned inp (Suc n)"
  by (simp add: readChar_def scanned_def)

lemma peekChar_scanning:
  "peekChar (scanning pre (c # d # cs)) = d" "peekChar (scanning pre [c]) = CHR 0x00"
  by (simp_all add: peekChar_def scanning_def nth_append)

lemma skipWhitespace_scanning:
  "isWhitespace c \<Longrightarrow> skipWhitespace (scanning pre (c # cs)) = skipWhitespace (scanning (pre @ [c]) cs)"
  "\<not> isWhitespace c \<Longrightarrow> skipWhitespace (scanning pre (c # cs)) = scanning pre (c # cs)"
  "skipWhitespace (scanning pre []) = scanning pre []"
  by (subst skipWhitespace.simps, simp add: readChar_scanning isWhitespace_def)+

text \<open>A character at which an identifier and a number both end.\<close>

definition ends_word :: "string \<Rightarrow> bool" where
  "ends_word suf \<longleftrightarrow> (case suf of [] \<Rightarrow> True | c # cs \<Rightarrow> \<not> isLetter c \<and> \<not> isDigit c)"

lemma not_letter_0: "\<not> isLetter (CHR 0x00)" and not_digit_0: "\<not> isDigit (CHR 0x00)"
  by (simp_all add: isLetter_def isDigit_def)

lemma readIdentifier_loop_scanning:
  "list_all isLetter x \<Longrightarrow> ends_word suf \<Longrightarrow>
   readIdentifier_loop (scanning pre (x @ suf)) = scanning (pre @ x) suf"
proof (induction x arbitrary: pre)
  case Nil
  then show ?case
    by (subst readIdentifier_loop.simps) (auto simp: ends_word_def not_letter_0 split: list.splits)
next
  case (Cons c x)
  have "readIdentifier_loop (scanning pre ((c # x) @ suf)) =
        readIdentifier_loop (scanning (pre @ [c]) (x @ suf))"
    using Cons.prems(1) by (subst readIdentifier_loop.simps) (simp add: readChar_scanning)
  then show ?case using Cons.IH [of "pre @ [c]"] Cons.prems by simp
qed

lemma readNumber_loop_scanning:
  "list_all isDigit x \<Longrightarrow> ends_word suf \<Longrightarrow>
   readNumber_loop (scanning pre (x @ suf)) = scanning (pre @ x) suf"
proof (induction x arbitrary: pre)
  case Nil
  then show ?case
    by (subst readNumber_loop.simps) (auto simp: ends_word_def not_digit_0 split: list.splits)
next
  case (Cons c x)
  have "readNumber_loop (scanning pre ((c # x) @ suf)) =
        readNumber_loop (scanning (pre @ [c]) (x @ suf))"
    using Cons.prems(1) by (subst readNumber_loop.simps) (simp add: readChar_scanning)
  then show ?case using Cons.IH [of "pre @ [c]"] Cons.prems by simp
qed

lemma slice_scanning: "slice (pre @ x @ suf) (length pre) (length (pre @ x)) = x"
  by (simp add: slice_def)

lemma input_scanning [simp]: "input (scanning pre suf) = pre @ suf"
  and position_scanning [simp]: "position (scanning pre suf) = length pre"
  by (simp_all add: scanning_def)

lemma letter_facts:
  assumes "isLetter c"
  shows "\<not> isWhitespace c" "c \<noteq> CHR 0x00" "\<not> isDigit c"
    "c \<notin> set ''=+-!*/<>,{(});''"
  using assms by (auto simp: isLetter_def isWhitespace_def isDigit_def less_eq_char_def)

lemma digit_facts:
  assumes "isDigit c"
  shows "\<not> isWhitespace c" "c \<noteq> CHR 0x00" "\<not> isLetter c"
    "c \<notin> set ''=+-!*/<>,{(});''"
  using assms by (auto simp: isLetter_def isWhitespace_def isDigit_def less_eq_char_def)

lemma NextToken_identifier:
  assumes "x \<noteq> []" and "list_all isLetter x" and "ends_word suf"
  shows "NextToken (scanning pre (x @ suf)) =
           (\<lparr>Type = LookupIdent x, Literal = x\<rparr>, scanning (pre @ x) suf)"
proof -
  obtain c cs where x: "x = c # cs" using assms(1) by (cases x) auto
  have c: "isLetter c" using assms(2) x by simp
  have sk: "skipWhitespace (scanning pre (x @ suf)) = scanning pre (x @ suf)"
    using letter_facts(1) [OF c] x by (simp add: skipWhitespace_scanning)
  have loop: "readIdentifier_loop (scanning pre (x @ suf)) = scanning (pre @ x) suf"
    using assms by (intro readIdentifier_loop_scanning)
  have "ch (scanning pre (x @ suf)) = c" using x by simp
  then show ?thesis
    using letter_facts [OF c] c slice_scanning [of pre x suf]
    by (simp add: NextToken_def sk Let_def readIdentifier_def loop)
qed

lemma NextToken_number:
  assumes "x \<noteq> []" and "list_all isDigit x" and "ends_word suf"
  shows "NextToken (scanning pre (x @ suf)) =
           (\<lparr>Type = INT_T, Literal = x\<rparr>, scanning (pre @ x) suf)"
proof -
  obtain c cs where x: "x = c # cs" using assms(1) by (cases x) auto
  have c: "isDigit c" using assms(2) x by simp
  have sk: "skipWhitespace (scanning pre (x @ suf)) = scanning pre (x @ suf)"
    using digit_facts(1) [OF c] x by (simp add: skipWhitespace_scanning)
  have loop: "readNumber_loop (scanning pre (x @ suf)) = scanning (pre @ x) suf"
    using assms by (intro readNumber_loop_scanning)
  have "ch (scanning pre (x @ suf)) = c" using x by simp
  then show ?thesis
    using digit_facts [OF c] c slice_scanning [of pre x suf]
    by (simp add: NextToken_def sk Let_def readNumber_def loop)
qed

lemma NextToken_space:
  "NextToken (scanning pre (CHR '' '' # suf)) = NextToken (scanning (pre @ '' '') suf)"
proof -
  have "NextToken (scanning pre (CHR '' '' # suf)) = NextToken (skipWhitespace (scanning pre (CHR '' '' # suf)))"
    by (simp add: NextToken_skipWhitespace)
  also have "\<dots> = NextToken (skipWhitespace (scanning (pre @ '' '') suf))"
    by (simp add: skipWhitespace_scanning isWhitespace_def)
  finally show ?thesis by (simp add: NextToken_skipWhitespace)
qed

lemma NextToken_scanned:
  "NextToken (scanned inp n) = (\<lparr>Type = EOF, Literal = ''''\<rparr>, scanned inp (Suc n))"
proof -
  have sk: "skipWhitespace (scanned inp n) = scanned inp n"
    by (rule skipWhitespace_at_end) (simp add: scanned_def)
  show ?thesis
    by (simp add: NextToken_def sk Let_def readChar_scanned) (simp add: scanned_def)
qed

lemma NextToken_end:
  "NextToken (scanning pre []) = (\<lparr>Type = EOF, Literal = ''''\<rparr>, scanned pre (Suc 0))"
  by (simp add: scanning_Nil NextToken_scanned)

lemma NextToken_plain:
  assumes "\<not> isWhitespace c" "c \<noteq> CHR ''=''" "c \<noteq> CHR ''!''" "c \<noteq> CHR 0x00"
    "\<not> isLetter c" "\<not> isDigit c"
  shows "NextToken (scanning pre (c # suf)) =
     (\<lparr>Type = (if c \<in> set ''+-*/<>,{(});'' then [c] else ILLEGAL), Literal = string_of_byte c\<rparr>,
      scanning (pre @ [c]) suf)"
  using assms
  by (simp add: NextToken_def skipWhitespace_scanning Let_def newToken_def readChar_scanning)

lemma NextToken_symbol:
  assumes "c \<in> set ''+-*/<>,{(});''"
  shows "NextToken (scanning pre (c # suf)) = (\<lparr>Type = [c], Literal = [c]\<rparr>, scanning (pre @ [c]) suf)"
proof -
  have "\<not> isWhitespace c \<and> c \<noteq> CHR ''='' \<and> c \<noteq> CHR ''!'' \<and> c \<noteq> CHR 0x00 \<and>
        \<not> isLetter c \<and> \<not> isDigit c \<and> string_of_byte c = [c]"
    using assms by (auto simp: isWhitespace_def isLetter_def isDigit_def string_of_byte_def)
  then show ?thesis using assms NextToken_plain [of c pre suf] by simp
qed

lemma NextToken_assign:
  "d \<noteq> CHR ''='' \<Longrightarrow>
   NextToken (scanning pre (CHR ''='' # d # suf)) =
     (\<lparr>Type = ASSIGN, Literal = ''=''\<rparr>, scanning (pre @ ''='') (d # suf))"
  by (simp add: NextToken_def skipWhitespace_scanning isWhitespace_def Let_def newToken_def
      string_of_byte_def readChar_scanning peekChar_scanning)

lemma NextToken_bang:
  "d \<noteq> CHR ''='' \<Longrightarrow>
   NextToken (scanning pre (CHR ''!'' # d # suf)) =
     (\<lparr>Type = BANG, Literal = ''!''\<rparr>, scanning (pre @ ''!'') (d # suf))"
  by (simp add: NextToken_def skipWhitespace_scanning isWhitespace_def Let_def newToken_def
      string_of_byte_def readChar_scanning peekChar_scanning)

lemma NextToken_eq:
  "NextToken (scanning pre (CHR ''='' # CHR ''='' # suf)) =
     (\<lparr>Type = EQ, Literal = ''==''\<rparr>, scanning (pre @ ''=='') suf)"
  by (simp add: NextToken_def skipWhitespace_scanning isWhitespace_def Let_def
      two_char_token_def string_of_byte_def readChar_scanning peekChar_scanning)

lemma NextToken_neq:
  "NextToken (scanning pre (CHR ''!'' # CHR ''='' # suf)) =
     (\<lparr>Type = NEQ, Literal = ''!=''\<rparr>, scanning (pre @ ''!='') suf)"
  by (simp add: NextToken_def skipWhitespace_scanning isWhitespace_def Let_def
      two_char_token_def string_of_byte_def readChar_scanning peekChar_scanning)

text \<open>
  The words of a flat expression: an identifier that is no keyword, or a run of digits that
  \<open>ParseInt\<close> accepts.
\<close>

definition is_ident :: "string \<Rightarrow> bool" where
  "is_ident x \<longleftrightarrow> x \<noteq> [] \<and> list_all isLetter x \<and> LookupIdent x = IDENT"

definition is_int :: "string \<Rightarrow> bool" where
  "is_int x \<longleftrightarrow> x \<noteq> [] \<and> list_all isDigit x \<and> (\<exists>v. ParseInt x = Inr v)"

definition atom :: "string \<Rightarrow> bool" where
  "atom x \<longleftrightarrow> is_ident x \<or> is_int x"

definition atom_tok :: "string \<Rightarrow> Token" where
  "atom_tok x = \<lparr>Type = (if is_ident x then IDENT else INT_T), Literal = x\<rparr>"

definition atom_expr :: "string \<Rightarrow> Expression" where
  "atom_expr x =
     (if is_ident x then IdentifierExpr (Identifier (atom_tok x) x)
      else IntegerLiteral (atom_tok x) (case ParseInt x of Inr v \<Rightarrow> v | Inl e \<Rightarrow> 0))"

lemma is_int_not_ident: "is_int x \<Longrightarrow> \<not> is_ident x"
  by (cases x) (auto simp: is_int_def is_ident_def digit_facts)

lemma NextToken_atom:
  assumes "atom x" and "ends_word suf"
  shows "NextToken (scanning pre (x @ suf)) = (atom_tok x, scanning (pre @ x) suf)"
proof (cases "is_ident x")
  case True
  then show ?thesis
    using NextToken_identifier [of x suf pre] assms(2) by (simp add: is_ident_def atom_tok_def)
next
  case False
  then have "is_int x" using assms(1) by (simp add: atom_def)
  then show ?thesis
    using NextToken_number [of x suf pre] assms(2) False by (simp add: is_int_def atom_tok_def)
qed

lemma NextToken_atom_end:
  "atom x \<Longrightarrow> NextToken (scanning pre x) = (atom_tok x, scanning (pre @ x) [])"
  using NextToken_atom [of x "[]" pre] by (simp add: ends_word_def)

lemma atom_first:
  assumes "atom x"
  obtains c cs where "x = c # cs" "c \<noteq> CHR ''=''"
proof -
  obtain c cs where x: "x = c # cs" using assms by (cases x) (auto simp: atom_def is_ident_def is_int_def)
  have "isLetter c \<or> isDigit c" using assms x by (auto simp: atom_def is_ident_def is_int_def)
  then have "c \<noteq> CHR ''=''" using letter_facts(4) digit_facts(4) by auto
  then show ?thesis using that x by blast
qed

lemma NextToken_bang_atom:
  assumes "atom x"
  shows "NextToken (scanning pre (CHR ''!'' # x @ suf)) =
           (\<lparr>Type = BANG, Literal = ''!''\<rparr>, scanning (pre @ ''!'') (x @ suf))"
    and "NextToken (scanning pre (CHR ''!'' # x)) =
           (\<lparr>Type = BANG, Literal = ''!''\<rparr>, scanning (pre @ ''!'') x)"
proof -
  obtain c cs where x: "x = c # cs" "c \<noteq> CHR ''=''" using assms by (rule atom_first)
  show "NextToken (scanning pre (CHR ''!'' # x @ suf)) =
           (\<lparr>Type = BANG, Literal = ''!''\<rparr>, scanning (pre @ ''!'') (x @ suf))"
    using NextToken_bang [OF x(2), of pre "cs @ suf"] x(1) by simp
  show "NextToken (scanning pre (CHR ''!'' # x)) =
           (\<lparr>Type = BANG, Literal = ''!''\<rparr>, scanning (pre @ ''!'') x)"
    using NextToken_bang [OF x(2), of pre cs] x(1) by simp
qed

lemma atom_tok_simps [simp]: "Literal (atom_tok x) = x"
  by (simp add: atom_tok_def)

lemma atom_tok_Type:
  "Type (atom_tok x) \<in> {IDENT, INT_T}"
  by (simp add: atom_tok_def)

lemma parseExpression_atom:
  assumes "atom x" and "curToken p = atom_tok x"
  shows "parseExpression precedence p = parseExpression_loop precedence (Some (atom_expr x)) p"
proof (cases "is_ident x")
  case True
  then show ?thesis
    using assms(2)
    by (simp add: parseExpression.simps atom_tok_def prefixParseFns_def parseIdentifier_def atom_expr_def)
next
  case False
  then have "is_int x" using assms(1) by (simp add: atom_def)
  then obtain v where "ParseInt x = Inr v" by (auto simp: is_int_def)
  then show ?thesis
    using assms(2) False
    by (simp add: parseExpression.simps atom_tok_def prefixParseFns_def parseIntegerLiteral_def atom_expr_def)
qed

lemma Expression_String_atom: "Expression_String (atom_expr x) = Some x"
  by (simp add: atom_expr_def)

lemma atom_tok_Type_neq [simp]:
  "Type (atom_tok x) \<noteq> LET" "Type (atom_tok x) \<noteq> RETURN" "Type (atom_tok x) \<noteq> EOF"
  "Type (atom_tok x) \<noteq> SEMICOLON"
  by (simp_all add: atom_tok_def)

lemma parseExpression_at_atom:
  assumes "atom (Literal (curToken p))" and "curToken p = atom_tok (Literal (curToken p))"
  shows "parseExpression precedence p =
           parseExpression_loop precedence (Some (atom_expr (Literal (curToken p)))) p"
  using parseExpression_atom [OF assms] .

lemma parseExpression_loop_stops:
  assumes "Type (peekToken p) = RPAREN \<or> Type (peekToken p) = EOF \<or> Type (peekToken p) = SEMICOLON"
    and "1 \<le> precedence"
  shows "parseExpression_loop precedence e p = (e, p)"
  using assms
  by (auto simp: parseExpression_loop.simps peekTokenIs_def peekPrecedence_def precedences_def)

lemmas scan_eval = lexer_New_scanning NextToken_symbol NextToken_assign NextToken_bang
  NextToken_eq NextToken_neq NextToken_atom NextToken_atom_end NextToken_bang_atom
  NextToken_space NextToken_end NextToken_scanned ends_word_def isLetter_def isDigit_def

lemmas flat_eval = parse_def render_def ParseProgram_def ParseProgram_loop.simps parser_New_def
  nextToken_def curTokenIs_def peekTokenIs_def parseStatement_def parseExpressionStatement_def
  parseExpression_at_atom parseExpression_loop_stops Expression_String_atom Program_String_def
  Errors_def

lemma parseExpression_without_rule:
  "prefixParseFns (Type (curToken p)) = None \<Longrightarrow>
   parseExpression precedence p = (None, noPrefixParseFnError (Type (curToken p)) p)"
  by (simp add: parseExpression.simps)

lemma parseExpression_prefix_operator:
  "Type (curToken p) = BANG \<or> Type (curToken p) = MINUS \<Longrightarrow>
   parseExpression precedence p =
     (let (leftExp, p') = parsePrefixExpression p in parseExpression_loop precedence leftExp p')"
  by (auto simp: parseExpression.simps prefixParseFns_def)

lemma is_ident_atom_tok: "is_ident x \<Longrightarrow> atom_tok x = \<lparr>Type = IDENT, Literal = x\<rparr>"
  by (simp add: atom_tok_def)

definition prefix_operators :: "Type list" where
  "prefix_operators = [BANG, MINUS]"

definition infix_operators :: "Type list" where
  "infix_operators = [PLUS, MINUS, SLASH, ASTERISK, EQ, NEQ, LT, GT]"

text \<open>
  \<open>renders_as inp r\<close>: the text \<open>inp\<close> parses without diagnostics and its program renders
  as \<open>r\<close>.
\<close>

definition renders_as :: "string \<Rightarrow> string \<Rightarrow> bool" where
  "renders_as inp r \<longleftrightarrow>
     (case parse inp of
        None \<Rightarrow> False
      | Some (program, errs) \<Rightarrow> errs = [] \<and> Program_String program = Some r)"

lemmas flat_eval2 = flat_eval renders_as_def parseExpression_without_rule
  parseExpression_prefix_operator parsePrefixExpression.simps parseInfixExpression.simps
  parseExpression_loop.simps prefixParseFns_def infixParseFns_def precedences_def
  peekPrecedence_def curPrecedence_def noPrefixParseFnError_def parseLetStatement_def
  parseReturnStatement_def expectPeek_def peekError_def skipToSemicolon.simps

lemma atom_round_trip:
  assumes "atom x"
  shows "renders_as x x \<and> render x = Some x"
  using assms by (simp add: flat_eval2 scan_eval)

lemma prefix_operator_cases:
  assumes "op \<in> set prefix_operators"
  obtains "op = BANG" | "op = MINUS"
  using assms by (auto simp: prefix_operators_def)

lemma infix_operator_cases:
  assumes "op \<in> set infix_operators"
  obtains "op = PLUS" | "op = MINUS" | "op = SLASH" | "op = ASTERISK"
    | "op = EQ" | "op = NEQ" | "op = LT" | "op = GT"
  using assms by (auto simp: infix_operators_def)


lemma NextToken_let:
  "NextToken (scanning pre (CHR ''l'' # CHR ''e'' # CHR ''t'' # CHR '' '' # suf)) =
     (\<lparr>Type = LET, Literal = ''let''\<rparr>, scanning (pre @ ''let'') (CHR '' '' # suf))"
  using NextToken_identifier [of "''let''" "CHR '' '' # suf" pre]
  by (simp add: ends_word_def isLetter_def isDigit_def LookupIdent_def keywords_table_def)

lemma NextToken_return:
  "NextToken (scanning pre (CHR ''r'' # CHR ''e'' # CHR ''t'' # CHR ''u'' # CHR ''r'' # CHR ''n'' # CHR '' '' # suf)) =
     (\<lparr>Type = RETURN, Literal = ''return''\<rparr>, scanning (pre @ ''return'') (CHR '' '' # suf))"
  using NextToken_identifier [of "''return''" "CHR '' '' # suf" pre]
  by (simp add: ends_word_def isLetter_def isDigit_def LookupIdent_def keywords_table_def)

lemmas scan_eval2 = scan_eval NextToken_let NextToken_return

lemma prefix_first:
  assumes "atom x" and "op \<in> set prefix_operators"
  shows "renders_as (op @ x) (''('' @ op @ x @ '')'')"
  using assms(2)
proof (cases rule: prefix_operator_cases)
  case 1
  then show ?thesis using assms(1) by (simp add: flat_eval2 scan_eval)
next
  case 2
  then show ?thesis using assms(1) by (simp add: flat_eval2 scan_eval)
qed

lemma prefix_again:
  assumes "atom x" and "op \<in> set prefix_operators"
  shows "render (''('' @ op @ x @ '')'') = Some (''('' @ op @ x @ '')'')"
  using assms(2)
proof (cases rule: prefix_operator_cases)
  case 1
  then show ?thesis using assms(1) by (simp add: flat_eval2 scan_eval)
next
  case 2
  then show ?thesis using assms(1) by (simp add: flat_eval2 scan_eval)
qed

lemma infix_first:
  assumes "atom x" and "atom y" and "op \<in> set infix_operators"
  shows "renders_as (x @ '' '' @ op @ '' '' @ y) (''('' @ x @ '' '' @ op @ '' '' @ y @ '')'')"
  using assms(3)
  by (cases rule: infix_operator_cases) (simp_all add: assms(1,2) flat_eval2 scan_eval)

lemma infix_again:
  assumes "atom x" and "atom y" and "op \<in> set infix_operators"
  shows "render (''('' @ x @ '' '' @ op @ '' '' @ y @ '')'') =
           Some (''('' @ x @ '' '' @ op @ '' '' @ y @ '')'')"
  using assms(3)
  by (cases rule: infix_operator_cases) (simp_all add: assms(1,2) flat_eval2 scan_eval)

lemma let_first:
  assumes "is_ident x" and "atom y"
  shows "renders_as (''let '' @ x @ '' = '' @ y @ '';'') (''let '' @ x @ '' = ;'')"
proof -
  have "atom x" using assms(1) by (simp add: atom_def)
  then show ?thesis
    using assms(2) is_ident_atom_tok [OF assms(1)]
    by (simp add: flat_eval2 scan_eval2)
qed

lemma let_again:
  assumes "is_ident x"
  shows "render (''let '' @ x @ '' = ;'') = Some (''let '' @ x @ '' = ;'')"
proof -
  have "atom x" using assms(1) by (simp add: atom_def)
  then show ?thesis
    using is_ident_atom_tok [OF assms(1)]
    by (simp add: flat_eval2 scan_eval2)
qed

lemma return_first:
  assumes "atom y"
  shows "renders_as (''return '' @ y @ '';'') ''return ;''"
  using assms by (simp add: flat_eval2 scan_eval2)

lemma return_again: "render ''return ;'' = Some ''return ;''"
  by (simp add: flat_eval2 scan_eval2)

section \<open>Properties of the scanner\<close>

text \<open>
  C8. Tokenizing \<^verbatim>\<open>=+(){},;!*-/<>==\<close> yields exactly the fifteen tokens ASSIGN, PLUS,
  LPAREN, RPAREN, LBRACE, RBRACE, COMMA, SEMICOLON, BANG, ASTERISK, MINUS, SLASH, LT, GT, EQ
  in that order, followed by EOF: the final \<^verbatim>\<open>==\<close> is one token, and \<^verbatim>\<open>!\<close> before
  \<^verbatim>\<open>*\<close> stays a single-character token.
\<close>

theorem tokenize_chapter1_symbols:
  "fst (tokens 16 (lexer_New ''=+(){},;!*-/<>=='')) =
    [\<lparr>Type = ASSIGN, Literal = ''=''\<rparr>, \<lparr>Type = PLUS, Literal = ''+''\<rparr>,
     \<lparr>Type = LPAREN, Literal = ''(''\<rparr>, \<lparr>Type = RPAREN, Literal = '')''\<rparr>,
     \<lparr>Type = LBRACE, Literal = ''{''\<rparr>, \<lparr>Type = RBRACE, Literal = ''}''\<rparr>,
     \<lparr>Type = COMMA, Literal = '',''\<rparr>, \<lparr>Type = SEMICOLON, Literal = '';''\<rparr>,
     \<lparr>Type = BANG, Literal = ''!''\<rparr>, \<lparr>Type = ASTERISK, Literal = ''*''\<rparr>,
     \<lparr>Type = MINUS, Literal = ''-''\<rparr>, \<lparr>Type = SLASH, Literal = ''/''\<rparr>,
     \<lparr>Type = LT, Literal = ''<''\<rparr>, \<lparr>Type = GT, Literal = ''>''\<rparr>,
     \<lparr>Type = EQ, Literal = ''==''\<rparr>, \<lparr>Type = EOF, Literal = ''''\<rparr>]"
  by (simp add: lexer_eval numeral_eq_Suc)

text \<open>
  C10. After construction and after every call of \<open>NextToken\<close> (that is, after any number
  \<open>n\<close> of calls on a fresh scanner), \<open>readPosition = position + 1\<close>, \<open>ch\<close> is
  \<open>input[position]\<close> when \<open>position\<close> is inside the input and the sentinel 0 otherwise,
  and \<open>input\<close> is the text the scanner was built from.
\<close>

theorem lexer_invariant:
  "lexer_inv (snd (tokens n (lexer_New inp))) \<and> input (snd (tokens n (lexer_New inp))) = inp"
  by (simp add: tokens_inv tokens_input lexer_New_inv lexer_New_input)

theorem lexer_invariant_witness:
  "lexer_inv (snd (tokens 3 (lexer_New ''a = 1''))) \<and>
   input (snd (tokens 3 (lexer_New ''a = 1''))) = ''a = 1'' \<and>
   position (snd (tokens 3 (lexer_New ''a = 1''))) = 5 \<and>
   readPosition (snd (tokens 3 (lexer_New ''a = 1''))) = 6 \<and>
   ch (snd (tokens 3 (lexer_New ''a = 1''))) = CHR 0x00"
  using lexer_invariant [of 3 "''a = 1''"] by (simp add: lexer_eval numeral_eq_Suc)

text \<open>
  C7, as stated: once the current character is the sentinel 0, \<open>NextToken\<close> emits EOF,
  does not advance further, and every later call returns EOF again. It does advance: the
  call ends with \<open>readChar\<close>, which moves \<open>position\<close> on even at end of input; on the
  empty text the scanner starts at position 0 and is at position 1 after its first EOF. And
  the sentinel is not only met at the end: a zero byte inside the text gives an EOF token
  after which the scanner goes on with the rest of the text.
\<close>

theorem eof_advances_position:
  "fst (NextToken (lexer_New '''')) = \<lparr>Type = EOF, Literal = ''''\<rparr> \<and>
   position (lexer_New '''') = 0 \<and>
   position (snd (NextToken (lexer_New ''''))) = 1 \<and>
   ch (lexer_New [CHR 0x00, CHR ''a'']) = CHR 0x00 \<and>
   fst (tokens 2 (lexer_New [CHR 0x00, CHR ''a''])) =
     [\<lparr>Type = EOF, Literal = ''''\<rparr>, \<lparr>Type = IDENT, Literal = ''a''\<rparr>]"
  by (simp add: lexer_eval numeral_eq_Suc)

text \<open>
  C7, amended. Once the cursor is at or past the end of the input (\<open>ch\<close> is then the
  sentinel 0), every call of \<open>NextToken\<close> returns an EOF token with empty literal; each
  such call still adds one to \<open>position\<close> and \<open>readPosition\<close> and changes nothing else
  (\<open>ch\<close> stays 0, the input is untouched), so all later calls return EOF as well.
\<close>

theorem eof_forever:
  "lexer_inv lx \<Longrightarrow> length (input lx) \<le> position lx \<Longrightarrow>
   tokens n lx = (replicate n \<lparr>Type = EOF, Literal = ''''\<rparr>,
           lx\<lparr>position := position lx + n, readPosition := readPosition lx + n\<rparr>)"
proof (induction n arbitrary: lx)
  case 0
  then show ?case by simp
next
  case (Suc n)
  let ?lx' = "lx\<lparr>position := position lx + 1, readPosition := readPosition lx + 1\<rparr>"
  have inv': "lexer_inv ?lx'" and end': "length (input ?lx') \<le> position ?lx'"
    using Suc.prems by (simp_all add: lexer_inv_def)
  show ?case
    using Suc.IH [OF inv' end'] NextToken_at_end [OF Suc.prems]
    by simp
qed

theorem eof_forever_witness:
  "lexer_inv (snd (tokens 2 (lexer_New ''x''))) \<and>
   length (input (snd (tokens 2 (lexer_New ''x'')))) \<le> position (snd (tokens 2 (lexer_New ''x''))) \<and>
   fst (tokens 3 (snd (tokens 2 (lexer_New ''x'')))) = replicate 3 \<lparr>Type = EOF, Literal = ''''\<rparr> \<and>
   position (snd (tokens 3 (snd (tokens 2 (lexer_New ''x''))))) = 5 \<and>
   ch (snd (tokens 3 (snd (tokens 2 (lexer_New ''x''))))) = CHR 0x00"
proof -
  have h1: "lexer_inv (snd (tokens 2 (lexer_New ''x'')))"
    by (simp add: tokens_inv lexer_New_inv)
  have h2: "length (input (snd (tokens 2 (lexer_New ''x'')))) \<le> position (snd (tokens 2 (lexer_New ''x'')))"
    by (simp add: lexer_eval numeral_eq_Suc)
  have pos: "position (snd (tokens 2 (lexer_New ''x''))) = 2"
    and c: "ch (snd (tokens 2 (lexer_New ''x''))) = CHR 0x00"
    by (simp_all add: lexer_eval numeral_eq_Suc)
  show ?thesis
    using h1 h2 eof_forever [OF h1 h2, of 3] by (simp add: pos c)
qed

section \<open>Properties of the parser\<close>

lemma render_prefix_product: "render ''-a * b'' = Some ''((-a) * b)''"
  by (simp add: parser_eval lexer_eval)

lemma render_sum_sum: "render ''a + b + c'' = Some ''((a + b) + c)''"
  by (simp add: parser_eval lexer_eval)

lemma render_sum_product: "render ''a + b * c'' = Some ''(a + (b * c))''"
  by (simp add: parser_eval lexer_eval)

lemma render_product_quotient: "render ''a * b / c'' = Some ''((a * b) / c)''"
  by (simp add: parser_eval lexer_eval)

text \<open>
  C3. Parsing \<^verbatim>\<open>-a * b\<close> renders as \<^verbatim>\<open>((-a) * b)\<close>, \<^verbatim>\<open>a + b + c\<close> as
  \<^verbatim>\<open>((a + b) + c)\<close>, \<^verbatim>\<open>a + b * c\<close> as \<^verbatim>\<open>(a + (b * c))\<close> and \<^verbatim>\<open>a * b / c\<close> as
  \<^verbatim>\<open>((a * b) / c)\<close>: infix operators of one precedence associate to the left and an
  operator of higher precedence binds tighter.
\<close>

theorem precedence_renderings:
  "render ''-a * b'' = Some ''((-a) * b)'' \<and>
   render ''a + b + c'' = Some ''((a + b) + c)'' \<and>
   render ''a + b * c'' = Some ''(a + (b * c))'' \<and>
   render ''a * b / c'' = Some ''((a * b) / c)''"
  by (simp only: render_prefix_product render_sum_sum render_sum_product
      render_product_quotient)

text \<open>
  C4, as stated: a \<^verbatim>\<open>!true\<close>-shaped input yields no expression for its statement.
  It does yield one: the statement of \<^verbatim>\<open>!true\<close> holds the prefix expression \<^verbatim>\<open>!\<close>,
  whose operand alone is absent (one diagnostic is recorded).
\<close>

theorem bang_true_keeps_prefix_expression:
  "parse ''!true'' =
     Some (\<lparr>Statements =
             [ExpressionStatementPtr (Some (ExpressionStatement \<lparr>Type = BANG, Literal = ''!''\<rparr>
                (Some (PrefixExpression \<lparr>Type = BANG, Literal = ''!''\<rparr> ''!'' None))))]\<rparr>,
           [''no prefix parse function for TRUE found''])"
  by (simp add: parser_eval lexer_eval)

text \<open>
  C4, amended. When \<open>parseExpression\<close> starts at a token whose kind has no prefix rule, it
  returns no expression and appends exactly one diagnostic
  \<^verbatim>\<open>no prefix parse function for <kind> found\<close>. A statement that starts at such a token
  (not \<^verbatim>\<open>let\<close>, not \<^verbatim>\<open>return\<close>) is an expression statement without expression, with that
  one diagnostic. When the token is the operand of a prefix operator (the \<^verbatim>\<open>true\<close> of
  \<^verbatim>\<open>!true\<close>), the prefix expression is still built, with its operand absent, and the one
  diagnostic is recorded.
\<close>

theorem no_prefix_rule:
  "(prefixParseFns (Type (curToken p)) = None \<longrightarrow>
      parseExpression precedence p =
        (None, p\<lparr>errors := errors p @
                  [''no prefix parse function for '' @ Type (curToken p) @ '' found'']\<rparr>) \<and>
      (Type (curToken p) \<noteq> LET \<and> Type (curToken p) \<noteq> RETURN \<longrightarrow>
         (\<exists>p'. parseStatement p =
                  Some (Some (ExpressionStatementPtr
                                (Some (ExpressionStatement (curToken p) None))), p') \<and>
               errors p' = errors p @
                  [''no prefix parse function for '' @ Type (curToken p) @ '' found'']))) \<and>
   (prefixParseFns (Type (peekToken p)) = None \<longrightarrow>
      parsePrefixExpression p =
        (Some (PrefixExpression (curToken p) (Literal (curToken p)) None),
         (nextToken p)\<lparr>errors := errors p @
                  [''no prefix parse function for '' @ Type (peekToken p) @ '' found'']\<rparr>))"
  by (auto simp: parseExpression.simps parsePrefixExpression.simps noPrefixParseFnError_def
      parseStatement_def parseExpressionStatement_def peekTokenIs_def errors_nextToken
      nextToken_errors curToken_nextToken)

theorem no_prefix_rule_witness:
  "prefixParseFns (Type (curToken (parser_New (lexer_New ''true'')))) = None \<and>
   Type (curToken (parser_New (lexer_New ''true''))) \<noteq> LET \<and>
   Type (curToken (parser_New (lexer_New ''true''))) \<noteq> RETURN \<and>
   fst (parseExpression LOWEST (parser_New (lexer_New ''true''))) = None \<and>
   errors (snd (parseExpression LOWEST (parser_New (lexer_New ''true'')))) =
     [''no prefix parse function for TRUE found''] \<and>
   prefixParseFns (Type (peekToken (parser_New (lexer_New ''!true'')))) = None \<and>
   fst (parsePrefixExpression (parser_New (lexer_New ''!true''))) =
     Some (PrefixExpression \<lparr>Type = BANG, Literal = ''!''\<rparr> ''!'' None) \<and>
   errors (snd (parsePrefixExpression (parser_New (lexer_New ''!true'')))) =
     [''no prefix parse function for TRUE found'']"
proof -
  have cur: "curToken (parser_New (lexer_New ''true'')) = \<lparr>Type = TRUE, Literal = ''true''\<rparr>"
    and errs: "errors (parser_New (lexer_New ''true'')) = []"
    by (simp_all add: parser_New_def nextToken_def lexer_eval)
  have cur': "curToken (parser_New (lexer_New ''!true'')) = \<lparr>Type = BANG, Literal = ''!''\<rparr>"
    and peek': "peekToken (parser_New (lexer_New ''!true'')) = \<lparr>Type = TRUE, Literal = ''true''\<rparr>"
    and errs': "errors (parser_New (lexer_New ''!true'')) = []"
    by (simp_all add: parser_New_def nextToken_def lexer_eval)
  have none: "prefixParseFns TRUE = None"
    by (simp add: prefixParseFns_def)
  show ?thesis
    using no_prefix_rule [of "parser_New (lexer_New ''true'')" LOWEST]
      no_prefix_rule [of "parser_New (lexer_New ''!true'')" LOWEST]
    by (simp add: cur errs cur' peek' errs' none)
qed

text \<open>
  C5. The prefix rule registered for INT tokens is \<open>parseIntegerLiteral\<close>. It converts the
  literal with \<open>ParseInt\<close> (base taken from the prefix, 64-bit signed range). Exactly when the
  conversion fails it returns no expression, and then it appends the one diagnostic
  \<^verbatim>\<open>could not parse <literal> as integer\<close> (the literal in double quotes, as \<^verbatim>\<open>%q\<close> prints it);
  otherwise it returns an \<open>IntegerLiteral\<close> that carries the token and the value, which is
  within the 64-bit signed range, and records nothing.
\<close>

theorem integer_literal_rule:
  "prefixParseFns INT_T = Some parseIntegerLiteral_rule \<and>
   ((\<exists>err. ParseInt (Literal (curToken p)) = Inl err) \<longleftrightarrow> fst (parseIntegerLiteral p) = None) \<and>
   (fst (parseIntegerLiteral p) = None \<longrightarrow>
      snd (parseIntegerLiteral p) =
        p\<lparr>errors := errors p @
             [''could not parse '' @ fmt_q (Literal (curToken p)) @ '' as integer'']\<rparr>) \<and>
   (\<forall>v. ParseInt (Literal (curToken p)) = Inr v \<longrightarrow>
      parseIntegerLiteral p = (Some (IntegerLiteral (curToken p) v), p) \<and>
      - 9223372036854775808 \<le> v \<and> v < 9223372036854775808)"
  using ParseInt_range [of "Literal (curToken p)"]
  by (auto simp: prefixParseFns_def parseIntegerLiteral_def split: sum.splits)

theorem integer_literal_rule_witness:
  "ParseInt ''08'' = Inl ErrSyntax \<and>
   parseIntegerLiteral (parser_New (lexer_New ''08'')) =
     (None, (parser_New (lexer_New ''08''))\<lparr>errors := [''could not parse '' @ [CHR 0x22] @ ''08'' @ [CHR 0x22] @ '' as integer'']\<rparr>) \<and>
   ParseInt ''42'' = Inr 42 \<and>
   parseIntegerLiteral (parser_New (lexer_New ''42'')) =
     (Some (IntegerLiteral \<lparr>Type = INT_T, Literal = ''42''\<rparr> 42), parser_New (lexer_New ''42''))"
proof -
  have cur: "curToken (parser_New (lexer_New ''08'')) = \<lparr>Type = INT_T, Literal = ''08''\<rparr>"
    and errs: "errors (parser_New (lexer_New ''08'')) = []"
    and cur': "curToken (parser_New (lexer_New ''42'')) = \<lparr>Type = INT_T, Literal = ''42''\<rparr>"
    by (simp_all add: parser_New_def nextToken_def lexer_eval)
  have bad: "ParseInt ''08'' = Inl ErrSyntax" and good: "ParseInt ''42'' = Inr 42"
    by (simp_all add: ParseInt_eval)
  have q: "fmt_q ''08'' = [CHR 0x22, CHR ''0'', CHR ''8'', CHR 0x22]"
    by (simp add: fmt_q_def)
  show ?thesis
    using integer_literal_rule [of "parser_New (lexer_New ''08'')"]
      integer_literal_rule [of "parser_New (lexer_New ''42'')"]
    by (cases "parseIntegerLiteral (parser_New (lexer_New ''08''))")
       (simp add: cur errs cur' bad good q)
qed

text \<open>
  C6 at the input \<^verbatim>\<open>let = 5;\<close>. The diagnostic is recorded and the parse goes on, but
  the failed statement is not omitted: \<open>parseLetStatement\<close> returns a nil
  \<^verbatim>\<open>*ast.LetStatement\<close>, \<open>parseStatement\<close> wraps it in the interface, the test
  \<^verbatim>\<open>stmt != nil\<close> of \<open>ParseProgram\<close> holds for the wrapped nil pointer, and the program
  gets three statements, the first of them that nil pointer; rendering the program
  panics on it.
\<close>

theorem failed_let_is_appended:
  "parse ''let = 5;'' =
     Some (\<lparr>Statements =
             [LetStatementPtr None,
              ExpressionStatementPtr (Some (ExpressionStatement \<lparr>Type = ASSIGN, Literal = ''=''\<rparr> None)),
              ExpressionStatementPtr (Some (ExpressionStatement \<lparr>Type = INT_T, Literal = ''5''\<rparr>
                (Some (IntegerLiteral \<lparr>Type = INT_T, Literal = ''5''\<rparr> 5))))]\<rparr>,
           [''expected next token to be IDENT, got = instead'',
            ''no prefix parse function for = found'']) \<and>
   render ''let = 5;'' = None"
  by (simp add: parser_eval lexer_eval ParseInt_eval)

text \<open>
  Every statement of a program that \<open>ParseProgram\<close> returns is a statement of the minimal
  variant, or it is the nil \<^verbatim>\<open>*ast.LetStatement\<close> of a \<open>let\<close> that failed.
\<close>

lemma parseStatement_minimal:
  "parseStatement p = Some (Some s, p') \<Longrightarrow> minimal_statement s \<or> s = LetStatementPtr None"
  by (auto simp: parseStatement_def parseLetStatement_def parseReturnStatement_def
      parseExpressionStatement_def Let_def case_prod_beta
      split: if_splits option.splits)

lemma ParseProgram_loop_minimal:
  assumes "ParseProgram_loop program p = Some r"
  shows "list_all (\<lambda>s. minimal_statement s \<or> s = LetStatementPtr None) (Statements program) \<longrightarrow>
         list_all (\<lambda>s. minimal_statement s \<or> s = LetStatementPtr None) (Statements (fst r))"
proof (rule ParseProgram_loop.raw_induct
    [where P = "\<lambda>program p r.
        list_all (\<lambda>s. minimal_statement s \<or> s = LetStatementPtr None) (Statements program) \<longrightarrow>
        list_all (\<lambda>s. minimal_statement s \<or> s = LetStatementPtr None) (Statements (fst r))",
     OF _ assms])
  fix loop :: "Program \<Rightarrow> Parser \<Rightarrow> (Program \<times> Parser) option" and program p r
  let ?ok = "list_all (\<lambda>s. minimal_statement s \<or> s = LetStatementPtr None)"
  assume IH: "\<And>program p r. loop program p = Some r \<Longrightarrow>
                 list_all (\<lambda>s. minimal_statement s \<or> s = LetStatementPtr None) (Statements program) \<longrightarrow>
                 list_all (\<lambda>s. minimal_statement s \<or> s = LetStatementPtr None) (Statements (fst r))"
  assume body: "(if \<not> curTokenIs p EOF then
        (case parseStatement p of
           None \<Rightarrow> None
         | Some (stmt, p') \<Rightarrow>
             loop
               (case stmt of
                  None \<Rightarrow> program
                | Some s \<Rightarrow> program\<lparr>Statements := Statements program @ [s]\<rparr>)
               (nextToken p'))
      else Some (program, p)) = Some r"
  show "?ok (Statements program) \<longrightarrow> ?ok (Statements (fst r))"
  proof (cases "curTokenIs p EOF")
    case True
    then show ?thesis using body by auto
  next
    case False
    then obtain stmt p' where ps: "parseStatement p = Some (stmt, p')"
      and rec: "loop (case stmt of None \<Rightarrow> program
                      | Some s \<Rightarrow> program\<lparr>Statements := Statements program @ [s]\<rparr>)
                  (nextToken p') = Some r"
      using body by (auto split: option.splits)
    have "?ok (Statements program) \<Longrightarrow>
          ?ok (Statements (case stmt of None \<Rightarrow> program
                      | Some s \<Rightarrow> program\<lparr>Statements := Statements program @ [s]\<rparr>))"
      using ps parseStatement_minimal by (cases stmt) auto
    then show ?thesis using IH [OF rec] by simp
  qed
qed

lemma statements_minimal_or_failed_let:
  "ParseProgram p = Some (program, p') \<Longrightarrow>
   \<forall>s \<in> set (Statements program). minimal_statement s \<or> s = LetStatementPtr None"
  using ParseProgram_loop_minimal [of "\<lparr>Statements = []\<rparr>" p "(program, p')"]
  by (simp add: ParseProgram_def list_all_iff)

text \<open>
  C9 at the input \<^verbatim>\<open>let x 5;\<close>. The claim: in every program that \<open>ParseProgram\<close>
  returns, every \<open>LetStatement\<close> has a name and no value, and every \<open>ReturnStatement\<close>
  has no return value. Here the \<open>let\<close> fails at the missing \<^verbatim>\<open>=\<close>, and the program
  that is returned holds, as its first statement, a nil \<^verbatim>\<open>*ast.LetStatement\<close>: a
  statement of type \<open>LetStatement\<close> that has no name (reading it panics), where the
  claim, and the test \<^verbatim>\<open>stmt != nil\<close> of \<open>ParseProgram\<close>, have no statement at all.
\<close>

theorem failed_let_has_no_name:
  "parse ''let x 5;'' =
     Some (\<lparr>Statements =
             [LetStatementPtr None,
              ExpressionStatementPtr (Some (ExpressionStatement \<lparr>Type = INT_T, Literal = ''5''\<rparr>
                (Some (IntegerLiteral \<lparr>Type = INT_T, Literal = ''5''\<rparr> 5))))]\<rparr>,
           [''expected next token to be =, got INT instead'']) \<and>
   \<not> minimal_statement (LetStatementPtr None) \<and>
   LetStatement_String None = None"
  by (simp add: parser_eval lexer_eval ParseInt_eval)






text \<open>
  C2, as stated: whenever a text parses without diagnostics, parsing its rendering again
  gives a program with the same rendering. The text \<^verbatim>\<open>a + b + c\<close> parses without
  diagnostics and renders as \<^verbatim>\<open>((a + b) + c)\<close>; the parser has no rule for a
  parenthesis, so parsing that rendering gives the statements \<^verbatim>\<open>(a + b)\<close> and \<^verbatim>\<open>c\<close>
  (and four statements without expression), which render as \<^verbatim>\<open>(a + b)c\<close>.
\<close>

theorem nested_rendering_not_stable:
  "map_option snd (parse ''a + b + c'') = Some [] \<and>
   render ''a + b + c'' = Some ''((a + b) + c)'' \<and>
   render ''((a + b) + c)'' = Some ''(a + b)c''"
  by (simp add: parser_eval lexer_eval)

text \<open>
  C2, amended. For a text that is one flat statement, the rendering is stable. Let \<open>x\<close>
  and \<open>y\<close> be words (an identifier that is no keyword, or a run of digits that converts to
  an integer). Each of the texts \<open>x\<close>, \<open>!x\<close>, \<open>-x\<close>, \<open>x op y\<close> for the eight infix
  operators, \<open>let x = y;\<close> (with \<open>x\<close> an identifier) and \<open>return y;\<close> parses without
  diagnostics, and parsing its rendering gives a program that renders as the same text
  again (the second parse records diagnostics for the parentheses, which the statement is
  not about).
\<close>

theorem flat_round_trip:
  "(atom x \<longrightarrow> renders_as x x \<and> render x = Some x) \<and>
   (atom x \<and> pre_op \<in> set prefix_operators \<longrightarrow>
      renders_as (pre_op @ x) (''('' @ pre_op @ x @ '')'') \<and>
      render (''('' @ pre_op @ x @ '')'') = Some (''('' @ pre_op @ x @ '')'')) \<and>
   (atom x \<and> atom y \<and> op \<in> set infix_operators \<longrightarrow>
      renders_as (x @ '' '' @ op @ '' '' @ y) (''('' @ x @ '' '' @ op @ '' '' @ y @ '')'') \<and>
      render (''('' @ x @ '' '' @ op @ '' '' @ y @ '')'') =
        Some (''('' @ x @ '' '' @ op @ '' '' @ y @ '')'')) \<and>
   (is_ident x \<and> atom y \<longrightarrow>
      renders_as (''let '' @ x @ '' = '' @ y @ '';'') (''let '' @ x @ '' = ;'') \<and>
      render (''let '' @ x @ '' = ;'') = Some (''let '' @ x @ '' = ;'')) \<and>
   (atom y \<longrightarrow>
      renders_as (''return '' @ y @ '';'') ''return ;'' \<and>
      render ''return ;'' = Some ''return ;'')"
  using atom_round_trip [of x] prefix_first [of x pre_op] prefix_again [of x pre_op]
    infix_first [of x y op] infix_again [of x y op] let_first [of x y] let_again [of x]
    return_first [of y] return_again
  by blast

theorem flat_round_trip_witness:
  "atom ''a'' \<and> is_ident ''a'' \<and> atom ''5'' \<and>
   ''-'' \<in> set prefix_operators \<and> ''*'' \<in> set infix_operators \<and>
   renders_as ''a'' ''a'' \<and>
   renders_as ''-a'' ''(-a)'' \<and> render ''(-a)'' = Some ''(-a)'' \<and>
   renders_as ''a * 5'' ''(a * 5)'' \<and> render ''(a * 5)'' = Some ''(a * 5)'' \<and>
   renders_as ''let a = 5;'' ''let a = ;'' \<and> render ''let a = ;'' = Some ''let a = ;'' \<and>
   renders_as ''return 5;'' ''return ;'' \<and> render ''return ;'' = Some ''return ;''"
proof -
  have i: "is_ident ''a''"
    by (simp add: is_ident_def isLetter_def LookupIdent_def keywords_table_def)
  have n: "is_int ''5''"
    by (simp add: is_int_def isDigit_def ParseInt_eval)
  have a: "atom ''a''" and b: "atom ''5''"
    using i n by (simp_all add: atom_def)
  have p: "''-'' \<in> set prefix_operators" and q: "''*'' \<in> set infix_operators"
    by (simp_all add: prefix_operators_def infix_operators_def)
  show ?thesis
    using flat_round_trip [of "''a''" "''-''" "''5''" "''*''"] i a b p q by simp
qed

end
